theory Spec2Isabelle
  imports Main "HOL-Library.Sublist" "HOL-Library.Multiset"
begin

section \<open>Python text operations used by the device manager\<close>

text \<open>
  Text is modelled as \<^typ>\<open>string\<close>; a character stands for the code point of the same
  number, U+0000 to U+00FF. On these code points the operations below are the ones of
  Python's \<open>str\<close>: whitespace includes U+001C to U+001F, U+0085 and U+00A0, the digits of
  \<open>isdigit\<close> include the superscripts U+00B2, U+00B3 and U+00B9 (which \<open>int\<close> refuses),
  and \<open>lower\<close> also maps U+00C0 to U+00DE, without U+00D7. Text with a code point above
  U+00FF cannot be written in this type and is not covered.
\<close>

definition is_space :: "char \<Rightarrow> bool" where
  \<comment> \<open>the characters for which \<open>str.isspace\<close> holds; \<open>strip()\<close> and \<open>split()\<close> use them\<close>
  "is_space c \<longleftrightarrow> c \<in> set [CHR 0x09, CHR 0x0A, CHR 0x0B, CHR 0x0C, CHR 0x0D,
                            CHR 0x1C, CHR 0x1D, CHR 0x1E, CHR 0x1F, CHR 0x20,
                            CHR 0x85, CHR 0xA0]"

definition is_decimal :: "char \<Rightarrow> bool" where
  \<comment> \<open>the decimal digits, the only digits \<open>int\<close> reads\<close>
  "is_decimal c \<longleftrightarrow> c \<in> set ''0123456789''"

definition is_digit :: "char \<Rightarrow> bool" where
  \<comment> \<open>the characters for which \<open>str.isdigit\<close> holds: also superscript two, three and one\<close>
  "is_digit c \<longleftrightarrow> is_decimal c \<or> c \<in> set [CHR 0xB2, CHR 0xB3, CHR 0xB9]"

definition digit_val :: "char \<Rightarrow> nat" where
  "digit_val c = of_char c - 48"

definition lower_char :: "char \<Rightarrow> char" where
  \<comment> \<open>A to Z, and U+00C0 to U+00DE without the multiplication sign U+00D7\<close>
  "lower_char c =
     (let n = (of_char c :: nat)
      in if (65 \<le> n \<and> n \<le> 90) \<or> (192 \<le> n \<and> n \<le> 222 \<and> n \<noteq> 215)
         then char_of (n + 32) else c)"

definition lower :: "string \<Rightarrow> string" where
  \<comment> \<open>\<open>s.lower()\<close>\<close>
  "lower s = map lower_char s"

definition strip :: "string \<Rightarrow> string" where
  \<comment> \<open>\<open>s.strip()\<close>\<close>
  "strip s = rev (dropWhile is_space (rev (dropWhile is_space s)))"

fun split_on :: "char \<Rightarrow> string \<Rightarrow> string list" where
  \<comment> \<open>\<open>s.split(c)\<close> with an explicit one-character separator: empty pieces are kept\<close>
  "split_on c [] = [[]]"
| "split_on c (x # xs) =
     (if x = c then [] # split_on c xs
      else (case split_on c xs of [] \<Rightarrow> [[x]] | w # ws \<Rightarrow> (x # w) # ws))"

fun split_acc :: "string \<Rightarrow> string \<Rightarrow> string list" where
  "split_acc cur [] = (if cur = [] then [] else [cur])"
| "split_acc cur (x # xs) =
     (if is_space x then (if cur = [] then split_acc [] xs else cur # split_acc [] xs)
      else split_acc (cur @ [x]) xs)"

definition split :: "string \<Rightarrow> string list" where
  \<comment> \<open>\<open>s.split()\<close>: the maximal runs of non-whitespace characters\<close>
  "split s = split_acc [] s"

fun join :: "string \<Rightarrow> string list \<Rightarrow> string" where
  \<comment> \<open>\<open>sep.join(parts)\<close>\<close>
  "join sep [] = []"
| "join sep [p] = p"
| "join sep (p # q # ps) = p @ sep @ join sep (q # ps)"

fun str_in :: "string \<Rightarrow> string \<Rightarrow> bool" where
  \<comment> \<open>\<open>k in s\<close> on strings: \<open>k\<close> occurs in \<open>s\<close> as a contiguous substring\<close>
  "str_in k [] = (k = [])"
| "str_in k (x # xs) = (prefix k (x # xs) \<or> str_in k xs)"

definition isdigit :: "string \<Rightarrow> bool" where
  \<comment> \<open>\<open>s.isdigit()\<close>: non-empty and digits only\<close>
  "isdigit s \<longleftrightarrow> s \<noteq> [] \<and> list_all is_digit s"

fun no_double_underscore :: "string \<Rightarrow> bool" where
  "no_double_underscore (x # y # xs) =
     (\<not> (x = CHR ''_'' \<and> y = CHR ''_'') \<and> no_double_underscore (y # xs))"
| "no_double_underscore _ = True"

definition digits_value :: "string \<Rightarrow> nat" where
  "digits_value ds = foldl (\<lambda>acc d. 10 * acc + digit_val d) 0 ds"

definition int_max_str_digits :: int where
  \<comment> \<open>the default of \<open>sys.int_max_str_digits\<close>\<close>
  "int_max_str_digits = 4300"

definition int_unsigned :: "string \<Rightarrow> nat option" where
  \<comment> \<open>a decimal literal: decimal digits, with single underscores allowed between digits,
      and no more digits (leading zeros counted, underscores not) than the cap\<close>
  "int_unsigned s =
     (if s \<noteq> [] \<and> is_decimal (hd s) \<and> is_decimal (last s)
         \<and> list_all (\<lambda>c. is_decimal c \<or> c = CHR ''_'') s \<and> no_double_underscore s
         \<and> int (length (filter is_decimal s)) \<le> int_max_str_digits
      then Some (digits_value (filter is_decimal s)) else None)"

definition is_int_space :: "char \<Rightarrow> bool" where
  \<comment> \<open>the whitespace that \<open>int\<close> skips around a literal: not U+001C to U+001F\<close>
  "is_int_space c \<longleftrightarrow> c \<in> set [CHR 0x09, CHR 0x0A, CHR 0x0B, CHR 0x0C, CHR 0x0D, CHR 0x20,
                                CHR 0x85, CHR 0xA0]"

definition py_int :: "string \<Rightarrow> int option" where
  \<comment> \<open>\<open>int(s)\<close> in base 10; \<open>None\<close> stands for \<open>ValueError\<close>\<close>
  "py_int s =
     (case rev (dropWhile is_int_space (rev (dropWhile is_int_space s))) of
        [] \<Rightarrow> None
      | c # cs \<Rightarrow>
          if c = CHR ''-'' then map_option (\<lambda>n. - int n) (int_unsigned cs)
          else if c = CHR ''+'' then map_option int (int_unsigned cs)
          else map_option int (int_unsigned (c # cs)))"

definition basename :: "string \<Rightarrow> string" where
  \<comment> \<open>\<open>os.path.basename\<close>: what follows the last slash\<close>
  "basename p = rev (takeWhile (\<lambda>c. c \<noteq> CHR ''/'') (rev p))"

section \<open>The outside world: processes, the playback backend, the trace of effects\<close>

text \<open>
  Everything the program does to the outside is an event, and the events so far, in order,
  are the trace, which is part of the state. The outside answers through an environment:
  how a process ends, whether a path exists, what a call of the backend returns or raises,
  each as a function of the trace so far and of the request, so that an answer may depend
  on all that happened before. The theorems hold for every environment. The objects of
  the backend (instance, player, media) and process objects are named by handles.
  The field \<open>percent\<close> stands for the floating-point computation of the progress value.
\<close>

datatype proc_outcome =
    Completed int string string   \<comment> \<open>return code, stdout, stderr\<close>
  | TimeoutExpired
  | OtherException string         \<comment> \<open>any other \<open>Exception\<close>, with \<open>str(e)\<close>\<close>

type_synonym handle = int

datatype call =
    InstanceNew "string list"
  | MediaPlayerNew handle
  | AudioOutputSet handle string
  | AudioOutputDeviceSet handle string
  | MediaNew handle string
  | SetMedia handle handle
  | PlayerPlay handle
  | PlayerStop handle
  | PlayerRelease handle
  | GetTime handle
  | GetLength handle
  | IsPlaying handle
  | ProcTerminate handle
  | ProcWait handle int
  | ProcKill handle

datatype ret = Ret int | Exc string

datatype event =
    Print string
  | Sleep nat                                \<comment> \<open>\<open>time.sleep\<close>, in milliseconds\<close>
  | Subprocess "string list" nat proc_outcome \<comment> \<open>\<open>subprocess.run(cmd, timeout=t)\<close> and how it ended\<close>
  | Backend call ret
  | SetValue int                             \<comment> \<open>\<open>progress_bar.setValue\<close>\<close>

record env =
  subprocess_run :: "event list \<Rightarrow> string list \<Rightarrow> nat \<Rightarrow> proc_outcome"
  path_exists :: "event list \<Rightarrow> string \<Rightarrow> bool"
  backend :: "event list \<Rightarrow> call \<Rightarrow> ret"
  percent :: "int \<Rightarrow> int \<Rightarrow> int"

record state =   \<comment> \<open>the attributes of a \<open>VirtualMicManager\<close>, and the trace\<close>
  mic_name :: string
  vlc_instance :: "handle option"
  vlc_player :: "handle option"
  current_process :: "handle option"
  trace :: "event list"

datatype exn = ValueError string | ZeroDivisionError | BackendError string

definition emit :: "event \<Rightarrow> state \<Rightarrow> state" where
  "emit e s = s\<lparr>trace := trace s @ [e]\<rparr>"

definition run_cmd :: "env \<Rightarrow> string list \<Rightarrow> nat \<Rightarrow> state \<Rightarrow> (int \<times> string \<times> string) \<times> state" where
  "run_cmd E cmd timeout s =
     (let r = subprocess_run E (trace s) cmd timeout;
          s' = emit (Subprocess cmd timeout r) s
      in (case r of
            Completed rc out err \<Rightarrow> ((rc, strip out, strip err), s')
          | TimeoutExpired \<Rightarrow> ((1, [], ''Timeout''), s')
          | OtherException msg \<Rightarrow> ((1, [], msg), s')))"

section \<open>VirtualMicManager\<close>

definition VirtualMicManager_init :: state where
  \<comment> \<open>\<open>__init__\<close>, before anything has happened\<close>
  "VirtualMicManager_init =
     \<lparr>mic_name = ''Real4n54n'', vlc_instance = None, vlc_player = None,
      current_process = None, trace = []\<rparr>"

definition is_constructor :: "call \<Rightarrow> bool" where
  "is_constructor c =
     (case c of InstanceNew _ \<Rightarrow> True | MediaPlayerNew _ \<Rightarrow> True | MediaNew _ _ \<Rightarrow> True
      | _ \<Rightarrow> False)"

definition backend_call :: "env \<Rightarrow> call \<Rightarrow> state \<Rightarrow> ret \<times> state" where
  \<comment> \<open>one call into the playback backend (or on a process object); an object that a call
      creates is named by the number of effects before it, so that it is new\<close>
  "backend_call E c s =
     (let r = (case backend E (trace s) c of
                 Exc m \<Rightarrow> Exc m
               | Ret v \<Rightarrow> if is_constructor c then Ret (int (length (trace s))) else Ret v)
      in (r, emit (Backend c r) s))"

subsection \<open>stop_playback\<close>

definition stop_player :: "env \<Rightarrow> handle \<Rightarrow> state \<Rightarrow> state" where
  \<comment> \<open>\<open>try: stop(); release()  except: pass\<close>\<close>
  "stop_player E p s =
     (case backend_call E (PlayerStop p) s of
        (Exc m, s1) \<Rightarrow> s1
      | (Ret v, s1) \<Rightarrow> snd (backend_call E (PlayerRelease p) s1))"

definition stop_process :: "env \<Rightarrow> handle \<Rightarrow> state \<Rightarrow> state" where
  \<comment> \<open>\<open>try: terminate(); wait(timeout=1)  except: try: kill() except: pass\<close>\<close>
  "stop_process E q s =
     (case backend_call E (ProcTerminate q) s of
        (Exc m, s1) \<Rightarrow> snd (backend_call E (ProcKill q) s1)
      | (Ret v, s1) \<Rightarrow>
          (case backend_call E (ProcWait q 1) s1 of
             (Exc m, s2) \<Rightarrow> snd (backend_call E (ProcKill q) s2)
           | (Ret w, s2) \<Rightarrow> s2))"

definition stop_playback :: "env \<Rightarrow> state \<Rightarrow> (exn + unit) \<times> state" where
  "stop_playback E s =
     (let s1 = (case vlc_player s of
                  None \<Rightarrow> s
                | Some p \<Rightarrow> (stop_player E p s)\<lparr>vlc_player := None\<rparr>);
          s2 = (case current_process s1 of
                  None \<Rightarrow> s1
                | Some q \<Rightarrow> (stop_process E q s1)\<lparr>current_process := None\<rparr>)
      in (Inr (), s2))"

subsection \<open>cleanup_all\<close>

definition virtual_keywords :: "string list" where
  "virtual_keywords = [''null-sink'', ''virtual'', ''mic'', ''real4n54n'', ''remap'', ''loopback'']"

definition is_virtual_module :: "string \<Rightarrow> bool" where
  \<comment> \<open>\<open>any(keyword in module_info.lower() for keyword in [...])\<close>\<close>
  "is_virtual_module module_info = list_ex (\<lambda>keyword. str_in keyword (lower module_info)) virtual_keywords"

fun scan_modules :: "string list \<Rightarrow> (string \<times> string) list" where
  \<comment> \<open>the loop over the lines of the listing, giving \<open>modules_to_remove\<close>\<close>
  "scan_modules [] = []"
| "scan_modules (line # lines) =
     (if strip line = [] then scan_modules lines
      else (case split line of
              module_id # p # ps \<Rightarrow>
                (let module_info = join '' '' (p # ps)
                 in if is_virtual_module module_info
                    then (module_id, module_info) # scan_modules lines
                    else scan_modules lines)
            | _ \<Rightarrow> scan_modules lines))"

definition sorted_modules :: "(string \<times> string) list \<Rightarrow> exn + (string \<times> string) list" where
  \<comment> \<open>\<open>sorted(modules_to_remove, key=lambda x: int(x[0]), reverse=True)\<close>: all keys are
      computed first; the sort is stable, also in reverse\<close>
  "sorted_modules ms =
     (case find (\<lambda>x. py_int (fst x) = None) ms of
        Some x \<Rightarrow> Inl (ValueError (fst x))
      | None \<Rightarrow> Inr (rev (sort_key (\<lambda>x. the (py_int (fst x))) (rev ms))))"

fun unload_modules :: "env \<Rightarrow> (string \<times> string) list \<Rightarrow> state \<Rightarrow> state" where
  \<comment> \<open>the removal loop; what \<open>run_cmd\<close> returns is not looked at\<close>
  "unload_modules E [] s = s"
| "unload_modules E ((module_id, module_info) # ms) s =
     (let s1 = emit (Print (''Removing: '' @ module_id @ '' - '' @ module_info)) s;
          s2 = snd (run_cmd E [''pactl'', ''unload-module'', module_id] 5 s1);
          s3 = emit (Sleep 100) s2
      in unload_modules E ms s3)"

definition cleanup_all :: "env \<Rightarrow> state \<Rightarrow> (exn + unit) \<times> state" where
  "cleanup_all E s =
     (let s1 = emit (Print ''Cleaning up virtual audio devices...'') s;
          s2 = snd (stop_playback E s1);
          ((rc, out, err), s3) = run_cmd E [''pactl'', ''list'', ''modules'', ''short''] 5 s2
      in if rc = 0
         then (case sorted_modules (scan_modules (split_on CHR 0x0A out)) of
                 Inl e \<Rightarrow> (Inl e, s3)
               | Inr ms \<Rightarrow> (Inr (), emit (Sleep 2000) (unload_modules E ms s3)))
         else (Inr (), emit (Sleep 2000) s3))"

subsection \<open>setup\<close>

definition load_cmd :: "string \<Rightarrow> string list" where
  "load_cmd name =
     [''pactl'', ''load-module'', ''module-null-sink'',
      ''sink_name='' @ name,
      ''sink_properties=device.description=Virtual_Microphone_Real4n54n'',
      ''format=s16le'', ''rate=48000'', ''channels=2'']"

definition verify :: "env \<Rightarrow> string \<Rightarrow> state \<Rightarrow> (exn + bool \<times> string) \<times> state" where
  \<comment> \<open>the end of \<open>setup\<close>, after the module was loaded\<close>
  "verify E out s =
     (let s1 = emit (Print (''Created virtual microphone: '' @ out)) s;
          monitor_name = mic_name s1 @ ''.monitor'';
          s2 = snd (run_cmd E [''pactl'', ''set-default-source'', monitor_name] 5 s1);
          s3 = emit (Sleep 2000) s2;
          ((rc, sources, err), s4) = run_cmd E [''pactl'', ''list'', ''sources'', ''short''] 5 s3
      in if str_in monitor_name sources
         then (Inr (True, ''Virtual Microphone Created '' @ [CHR 0x27] @ mic_name s4 @ [CHR 0x27]), s4)
         else (Inr (False, ''Failed to create virtual microphone''), s4))"

definition create :: "env \<Rightarrow> state \<Rightarrow> (exn + bool \<times> string) \<times> state" where
  \<comment> \<open>\<open>setup\<close> from the creation request on\<close>
  "create E s =
     (let ((rc, out, err), s1) = run_cmd E (load_cmd (mic_name s)) 5 s
      in if rc \<noteq> 0 \<or> \<not> isdigit out
         then (Inr (False, ''Failed to create virtual microphone: '' @ err), s1)
         else verify E out s1)"

definition setup_manager :: "env \<Rightarrow> state \<Rightarrow> (exn + bool \<times> string) \<times> state" where
  "setup_manager E s =
     (let s1 = emit (Print (''Creating virtual microphone: '' @ mic_name s)) s
      in (case cleanup_all E s1 of
            (Inl e, s2) \<Rightarrow> (Inl e, s2)
          | (Inr u, s2) \<Rightarrow> create E (emit (Sleep 2000) s2)))"

subsection \<open>play_audio_vlc\<close>

definition vlc_try ::
  "ret \<times> state \<Rightarrow> (int \<Rightarrow> state \<Rightarrow> (exn + bool \<times> string) \<times> state) \<Rightarrow> (exn + bool \<times> string) \<times> state" where
  \<comment> \<open>one statement of the \<open>try\<close> block: an exception leaves through
      \<open>except Exception as e: return False, f"VLC error: {str(e)}"\<close>\<close>
  "vlc_try r k =
     (case r of
        (Exc m, s) \<Rightarrow> (Inr (False, ''VLC error: '' @ m), s)
      | (Ret v, s) \<Rightarrow> k v s)"

definition get_instance :: "env \<Rightarrow> state \<Rightarrow> ret \<times> state" where
  \<comment> \<open>\<open>if not self.vlc_instance: self.vlc_instance = vlc.Instance('--no-video', '--quiet')\<close>\<close>
  "get_instance E s =
     (case vlc_instance s of
        Some i \<Rightarrow> (Ret i, s)
      | None \<Rightarrow>
          (case backend_call E (InstanceNew [''--no-video'', ''--quiet'']) s of
             (Exc m, s1) \<Rightarrow> (Exc m, s1)
           | (Ret i, s1) \<Rightarrow> (Ret i, s1\<lparr>vlc_instance := Some i\<rparr>)))"

definition route_and_play ::
  "env \<Rightarrow> string \<Rightarrow> handle \<Rightarrow> handle \<Rightarrow> state \<Rightarrow> (exn + bool \<times> string) \<times> state" where
  \<comment> \<open>the \<open>try\<close> block of \<open>play_audio_vlc\<close> from \<open>audio_output_set\<close> on\<close>
  "route_and_play E audio_path i p s =
     vlc_try (backend_call E (AudioOutputSet p ''pulse'') s) (\<lambda>_ s4.
     vlc_try (backend_call E (AudioOutputDeviceSet p (mic_name s4)) s4) (\<lambda>_ s5.
     vlc_try (backend_call E (MediaNew i audio_path) s5) (\<lambda>media s6.
     vlc_try (backend_call E (SetMedia p media) s6) (\<lambda>_ s7.
     vlc_try (backend_call E (PlayerPlay p) s7) (\<lambda>r s8.
       if r = - 1 then (Inr (False, ''Failed to play audio with VLC''), s8)
       else (Inr (True, ''Sending audio '' @ [CHR 0x27] @ basename audio_path @ [CHR 0x27]), s8))))))"

definition start_player :: "env \<Rightarrow> string \<Rightarrow> state \<Rightarrow> (exn + bool \<times> string) \<times> state" where
  \<comment> \<open>the \<open>try\<close> block of \<open>play_audio_vlc\<close>\<close>
  "start_player E audio_path s =
     vlc_try (get_instance E s) (\<lambda>i s1.
     vlc_try (backend_call E (MediaPlayerNew i) s1) (\<lambda>p s2.
     route_and_play E audio_path i p (s2\<lparr>vlc_player := Some p\<rparr>)))"

definition play_audio_vlc :: "env \<Rightarrow> string \<Rightarrow> state \<Rightarrow> (exn + bool \<times> string) \<times> state" where
  "play_audio_vlc E audio_path s =
     (if \<not> path_exists E (trace s) audio_path then (Inr (False, ''File not found''), s)
      else start_player E audio_path (snd (stop_playback E s)))"

fun play_all :: "env \<Rightarrow> string list \<Rightarrow> state \<Rightarrow> state" where
  \<comment> \<open>a sequence of \<open>play_audio_vlc\<close> calls on the same manager\<close>
  "play_all E [] s = s"
| "play_all E (audio_path # rest) s = play_all E rest (snd (play_audio_vlc E audio_path s))"

subsection \<open>Transport accessors\<close>

definition get_playback_time :: "env \<Rightarrow> state \<Rightarrow> ret \<times> state" where
  "get_playback_time E s =
     (case vlc_player s of Some p \<Rightarrow> backend_call E (GetTime p) s | None \<Rightarrow> (Ret 0, s))"

definition get_media_length :: "env \<Rightarrow> state \<Rightarrow> ret \<times> state" where
  "get_media_length E s =
     (case vlc_player s of Some p \<Rightarrow> backend_call E (GetLength p) s | None \<Rightarrow> (Ret 0, s))"

definition is_playing :: "env \<Rightarrow> state \<Rightarrow> ret \<times> state" where
  \<comment> \<open>\<open>False\<close> is 0; the caller tests the result for truth\<close>
  "is_playing E s =
     (case vlc_player s of Some p \<Rightarrow> backend_call E (IsPlaying p) s | None \<Rightarrow> (Ret 0, s))"

section \<open>VirtualMicApp: the progress poll\<close>

record app =
  mic :: state
  app_is_playing :: bool   \<comment> \<open>the attribute \<open>self.is_playing\<close> of the window\<close>

definition progress_percent :: "env \<Rightarrow> int \<Rightarrow> int \<Rightarrow> exn + int" where
  \<comment> \<open>\<open>int((current_time / total_time) * 100)\<close>: the division raises on a zero divisor;
      otherwise the value is the one binary floating point gives, \<open>percent E\<close>\<close>
  "progress_percent E current_time total_time =
     (if total_time = 0 then Inl ZeroDivisionError else Inr (percent E current_time total_time))"

definition update_progress :: "env \<Rightarrow> app \<Rightarrow> (exn + unit) \<times> app" where
  "update_progress E a =
     (if \<not> app_is_playing a then (Inr (), a)
      else (case is_playing E (mic a) of
              (Exc m, s1) \<Rightarrow> (Inl (BackendError m), a\<lparr>mic := s1\<rparr>)
            | (Ret playing, s1) \<Rightarrow>
                if playing = 0 then (Inr (), a\<lparr>mic := s1\<rparr>)
                else (case get_playback_time E s1 of
                        (Exc m, s2) \<Rightarrow> (Inl (BackendError m), a\<lparr>mic := s2\<rparr>)
                      | (Ret current_time, s2) \<Rightarrow>
                          (case get_media_length E s2 of
                             (Exc m, s3) \<Rightarrow> (Inl (BackendError m), a\<lparr>mic := s3\<rparr>)
                           | (Ret total_time, s3) \<Rightarrow>
                               if total_time > 0
                               then (case progress_percent E current_time total_time of
                                       Inl e \<Rightarrow> (Inl e, a\<lparr>mic := s3\<rparr>)
                                     | Inr progress \<Rightarrow>
                                         (Inr (), a\<lparr>mic := emit (SetValue progress) s3\<rparr>))
                               else (Inr (), a\<lparr>mic := s3\<rparr>)))))"

section \<open>Reading a trace\<close>

definition new_events :: "state \<Rightarrow> state \<Rightarrow> event list" where
  \<comment> \<open>what happened between an earlier state and a later one\<close>
  "new_events s s' = drop (length (trace s)) (trace s')"

fun is_stop_event :: "event \<Rightarrow> bool" where
  "is_stop_event (Backend (PlayerStop p) r) = True"
| "is_stop_event (Backend (PlayerRelease p) r) = True"
| "is_stop_event (Backend (ProcTerminate q) r) = True"
| "is_stop_event (Backend (ProcWait q t) r) = True"
| "is_stop_event (Backend (ProcKill q) r) = True"
| "is_stop_event _ = False"

fun is_unload :: "event \<Rightarrow> bool" where
  "is_unload (Subprocess cmd t r) = (take 2 cmd = [''pactl'', ''unload-module''])"
| "is_unload _ = False"

fun is_load :: "event \<Rightarrow> bool" where
  "is_load (Subprocess cmd t r) = (take 2 cmd = [''pactl'', ''load-module''])"
| "is_load _ = False"

fun command_of :: "event \<Rightarrow> string list option" where
  "command_of (Subprocess cmd t r) = Some cmd"
| "command_of _ = None"

definition unload_calls :: "event list \<Rightarrow> string list list" where
  \<comment> \<open>the unload-module commands of a trace, in the order they were issued\<close>
  "unload_calls tr = List.map_filter command_of (filter is_unload tr)"

definition line_matches :: "string \<Rightarrow> bool" where
  \<comment> \<open>a line of the listing with a module ID and metadata that matches a keyword\<close>
  "line_matches line =
     (case split line of
        module_id # p # ps \<Rightarrow> is_virtual_module (join '' '' (p # ps))
      | _ \<Rightarrow> False)"

fun created_by :: "event \<Rightarrow> handle option" where
  "created_by (Backend (MediaPlayerNew i) (Ret h)) = Some h"
| "created_by _ = None"

definition players_created :: "event list \<Rightarrow> handle list" where
  "players_created tr = List.map_filter created_by tr"

fun stops :: "handle \<Rightarrow> event \<Rightarrow> bool" where
  "stops h (Backend (PlayerStop g) r) = (g = h)"
| "stops h _ = False"

fun stop_raises :: "handle \<Rightarrow> event \<Rightarrow> bool" where
  "stop_raises h (Backend (PlayerStop g) (Exc m)) = (g = h)"
| "stop_raises h _ = False"

fun releases :: "handle \<Rightarrow> event \<Rightarrow> bool" where
  "releases h (Backend (PlayerRelease g) r) = (g = h)"
| "releases h _ = False"

definition retired :: "event list \<Rightarrow> handle \<Rightarrow> bool" where
  \<comment> \<open>the player was asked to stop, and then released unless the stop raised\<close>
  "retired tr h \<longleftrightarrow> list_ex (stops h) tr \<and> (list_ex (stop_raises h) tr \<or> list_ex (releases h) tr)"

fun exclusive_from :: "event list \<Rightarrow> event list \<Rightarrow> bool" where
  \<comment> \<open>given the events so far: whenever one of the coming events creates a player,
      every player created before it is retired by then\<close>
  "exclusive_from past [] = True"
| "exclusive_from past (e # es) =
     ((created_by e \<noteq> None \<longrightarrow> list_all (retired past) (players_created past))
      \<and> exclusive_from (past @ [e]) es)"

definition exclusive :: "event list \<Rightarrow> bool" where
  "exclusive tr = exclusive_from [] tr"

definition session_inv :: "state \<Rightarrow> bool" where
  \<comment> \<open>what holds of the manager between any two calls of \<open>play_audio_vlc\<close>\<close>
  "session_inv s \<longleftrightarrow>
     exclusive (trace s)
     \<and> distinct (players_created (trace s))
     \<and> (\<forall>h\<in>set (players_created (trace s)). vlc_player s = Some h \<or> retired (trace s) h)
     \<and> (\<forall>h. vlc_player s = Some h \<longrightarrow>
            players_created (trace s) \<noteq> [] \<and> h = last (players_created (trace s))
            \<and> \<not> list_ex (stops h) (trace s))
     \<and> (\<forall>h\<in>set (players_created (trace s)). h < int (length (trace s)))
     \<and> (\<forall>g. list_ex (stops g) (trace s) \<longrightarrow> g \<in> set (players_created (trace s)))"

fun most_recent_successful_player ::
  "env \<Rightarrow> string list \<Rightarrow> state \<Rightarrow> handle option \<Rightarrow> handle option" where
  \<comment> \<open>in the words of the specification: the player that belongs to the most recent
      successful Play of a sequence of calls (\<open>acc\<close> before the first call)\<close>
  "most_recent_successful_player E [] s acc = acc"
| "most_recent_successful_player E (audio_path # rest) s acc =
     (case play_audio_vlc E audio_path s of
        (Inr (True, msg), s') \<Rightarrow> most_recent_successful_player E rest s' (vlc_player s')
      | (_, s') \<Rightarrow> most_recent_successful_player E rest s' acc)"

section \<open>Concrete environments\<close>

definition demo_listing :: string where
  "demo_listing =
     ''7'' @ [CHR 0x09] @ ''module-alsa-card'' @ [CHR 0x0A]
     @ ''12'' @ [CHR 0x09] @ ''module-null-sink'' @ [CHR 0x09] @ ''sink_name=Old'' @ [CHR 0x0A]
     @ ''9'' @ [CHR 0x09] @ ''module-Loopback'' @ [CHR 0x0A]
     @ ''30'' @ [CHR 0x09] @ ''module-remap-source'' @ [CHR 0x0A]"

definition demo_shell :: "event list \<Rightarrow> string list \<Rightarrow> nat \<Rightarrow> proc_outcome" where
  \<comment> \<open>two of the three unloads fail\<close>
  "demo_shell tr cmd t =
     (if cmd = [''pactl'', ''list'', ''modules'', ''short''] then Completed 0 demo_listing []
      else if cmd = [''pactl'', ''unload-module'', ''30''] then TimeoutExpired
      else if cmd = [''pactl'', ''unload-module'', ''12'']
        then Completed 1 [] ''Failure: Module not loaded''
      else if take 2 cmd = [''pactl'', ''load-module''] then Completed 0 (''42'' @ [CHR 0x0A]) []
      else if cmd = [''pactl'', ''list'', ''sources'', ''short'']
        then Completed 0 (''1'' @ [CHR 0x09] @ ''Real4n54n.monitor'' @ [CHR 0x0A]) []
      else Completed 0 [] [])"

definition demo_env :: env where
  \<comment> \<open>two files exist; the backend starts the first play and refuses later ones\<close>
  "demo_env =
     \<lparr>subprocess_run = demo_shell,
      path_exists = (\<lambda>tr p. p = ''/m/a.wav'' \<or> p = ''/m/b.wav''),
      backend = (\<lambda>tr c. case c of
                   PlayerPlay h \<Rightarrow> if length tr < 8 then Ret 0 else Ret (- 1)
                 | GetTime h \<Rightarrow> Ret 1500
                 | GetLength h \<Rightarrow> Ret 6000
                 | IsPlaying h \<Rightarrow> Ret 1
                 | _ \<Rightarrow> Ret 0),
      percent = (\<lambda>c t. (c * 100) div t)\<rparr>"

definition blank_env :: env where
  \<comment> \<open>every command exits with status 0 and prints nothing; every backend call raises\<close>
  "blank_env =
     \<lparr>subprocess_run = (\<lambda>tr cmd t. Completed 0 [] []),
      path_exists = (\<lambda>tr p. True),
      backend = (\<lambda>tr c. Exc ''backend error''),
      percent = (\<lambda>c t. 0)\<rparr>"

definition unknown_length_env :: env where
  \<comment> \<open>the backend is playing but does not know the length of the media\<close>
  "unknown_length_env =
     \<lparr>subprocess_run = (\<lambda>tr cmd t. Completed 0 [] []),
      path_exists = (\<lambda>tr p. True),
      backend = (\<lambda>tr c. case c of IsPlaying h \<Rightarrow> Ret 1 | GetTime h \<Rightarrow> Ret 40 | _ \<Rightarrow> Ret 0),
      percent = (\<lambda>c t. (c * 100) div t)\<rparr>"

definition one_player :: state where
  "one_player = VirtualMicManager_init\<lparr>vlc_instance := Some 0, vlc_player := Some 1\<rparr>"

definition listing_env :: "proc_outcome \<Rightarrow> env" where
  \<comment> \<open>the listing of the modules ends as given; every other command and call succeeds\<close>
  "listing_env r =
     \<lparr>subprocess_run = (\<lambda>tr cmd t.
        if cmd = [''pactl'', ''list'', ''modules'', ''short''] then r else Completed 0 [] []),
      path_exists = (\<lambda>tr p. True),
      backend = (\<lambda>tr c. Ret 0),
      percent = (\<lambda>c t. (c * 100) div t)\<rparr>"

definition repeated_id_listing :: string where
  \<comment> \<open>the first and the last ID are the same number\<close>
  "repeated_id_listing =
     ''12'' @ [CHR 0x09] @ ''module-null-sink'' @ [CHR 0x0A]
     @ ''7'' @ [CHR 0x09] @ ''module-loopback'' @ [CHR 0x0A]
     @ ''012'' @ [CHR 0x09] @ ''module-remap-source''"

definition bad_id_listing :: string where
  "bad_id_listing =
     ''x1'' @ [CHR 0x09] @ ''module-null-sink'' @ [CHR 0x0A]
     @ ''7'' @ [CHR 0x09] @ ''module-loopback''"


section \<open>Properties\<close>

subsection \<open>Traces and fields\<close>

lemma trace_emit: "trace (emit e s) = trace s @ [e]"
  by (simp add: emit_def)

lemma emit_fields:
  "mic_name (emit e s) = mic_name s" "vlc_instance (emit e s) = vlc_instance s"
  "vlc_player (emit e s) = vlc_player s" "current_process (emit e s) = current_process s"
  by (simp_all add: emit_def)

lemma snd_run_cmd:
  "snd (run_cmd E cmd t s) = emit (Subprocess cmd t (subprocess_run E (trace s) cmd t)) s"
  by (simp add: run_cmd_def Let_def split: proc_outcome.splits)

subsection \<open>run_cmd\<close>

lemma dropWhile_strip: "dropWhile is_space (strip s) = strip s"
proof -
  define t where "t = dropWhile is_space s"
  have st: "strip s = rev (dropWhile is_space (rev t))" by (simp add: strip_def t_def)
  show ?thesis
  proof (cases "strip s")
    case Nil then show ?thesis by simp
  next
    case (Cons a list)
    have "prefix (strip s) t" unfolding st
      by (metis prefix_def rev_append rev_rev_ident takeWhile_dropWhile_id)
    then have "hd (strip s) = hd t" using Cons by (auto simp: prefix_def)
    moreover have "t \<noteq> []" using Cons st by auto
    then have "\<not> is_space (hd t)" unfolding t_def by (metis hd_dropWhile)
    ultimately show ?thesis using Cons by auto
  qed
qed

lemma strip_idem: "strip (strip s) = strip s"
proof -
  have "rev (strip s) = dropWhile is_space (rev (dropWhile is_space s))" by (simp add: strip_def)
  then have "dropWhile is_space (rev (strip s)) = rev (strip s)"
    by (metis dropWhile_idem)
  then show ?thesis unfolding strip_def[of "strip s"] dropWhile_strip by simp
qed

text \<open>
  C10. \<open>run_cmd\<close> returns a triple whatever the process does: the exit code with stripped
  stdout and stderr when it completes, \<open>(1, "", "Timeout")\<close> on a timeout, and
  \<open>(1, "", message)\<close> on any other exception. The code is zero only when the process
  completed with exit status zero, and exactly one process was run.
\<close>

theorem run_cmd_total:
  "fst (run_cmd E cmd timeout s) =
     (case subprocess_run E (trace s) cmd timeout of
        Completed rc out err \<Rightarrow> (rc, strip out, strip err)
      | TimeoutExpired \<Rightarrow> (1, [], ''Timeout'')
      | OtherException msg \<Rightarrow> (1, [], msg))
   \<and> (fst (fst (run_cmd E cmd timeout s)) = 0 \<longleftrightarrow>
        (\<exists>out err. subprocess_run E (trace s) cmd timeout = Completed 0 out err))
   \<and> strip (fst (snd (fst (run_cmd E cmd timeout s)))) = fst (snd (fst (run_cmd E cmd timeout s)))
   \<and> trace (snd (run_cmd E cmd timeout s)) =
        trace s @ [Subprocess cmd timeout (subprocess_run E (trace s) cmd timeout)]"
proof -
  have "strip [] = []" by (simp add: strip_def)
  then show ?thesis
    by (cases "subprocess_run E (trace s) cmd timeout")
       (simp_all add: run_cmd_def Let_def trace_emit strip_idem)
qed

theorem run_cmd_total_witness:
  "fst (run_cmd demo_env [''pactl'', ''unload-module'', ''30''] 5 VirtualMicManager_init)
     = (1, [], ''Timeout'')
   \<and> fst (run_cmd demo_env [''pactl'', ''load-module'', ''module-null-sink''] 5 VirtualMicManager_init)
     = (0, ''42'', [])"
proof -
  have s: "strip [] = []" "strip [CHR ''4'', CHR ''2'', CHR 0x0A] = ''42''"
    by (simp_all add: strip_def is_space_def)
  have o1: "subprocess_run demo_env (trace VirtualMicManager_init)
              [''pactl'', ''unload-module'', ''30''] 5 = TimeoutExpired"
    by (simp add: demo_env_def demo_shell_def)
  have o2: "subprocess_run demo_env (trace VirtualMicManager_init)
              [''pactl'', ''load-module'', ''module-null-sink''] 5
            = Completed 0 (''42'' @ [CHR 0x0A]) []"
    by (simp add: demo_env_def demo_shell_def)
  have 1: "fst (run_cmd demo_env [''pactl'', ''unload-module'', ''30''] 5 VirtualMicManager_init)
     = (1, [], ''Timeout'')"
    using run_cmd_total [of demo_env "[''pactl'', ''unload-module'', ''30'']" 5 VirtualMicManager_init]
    by (simp add: o1)
  have 2: "fst (run_cmd demo_env [''pactl'', ''load-module'', ''module-null-sink''] 5 VirtualMicManager_init)
     = (0, ''42'', [])"
    using run_cmd_total [of demo_env "[''pactl'', ''load-module'', ''module-null-sink'']" 5 VirtualMicManager_init]
    by (simp add: o2 s)
  show ?thesis using 1 2 by blast
qed

subsection \<open>stop_playback\<close>

lemma backend_call_snd:
  "snd (backend_call E c s) = emit (Backend c (fst (backend_call E c s))) s"
  by (simp add: backend_call_def Let_def)

lemma backend_call_fields:
  "mic_name (snd (backend_call E c s)) = mic_name s"
  "vlc_instance (snd (backend_call E c s)) = vlc_instance s"
  "vlc_player (snd (backend_call E c s)) = vlc_player s"
  "current_process (snd (backend_call E c s)) = current_process s"
  by (simp_all add: backend_call_snd emit_fields)

lemma stop_player_fields:
  "mic_name (stop_player E p s) = mic_name s"
  "vlc_instance (stop_player E p s) = vlc_instance s"
  "vlc_player (stop_player E p s) = vlc_player s"
  "current_process (stop_player E p s) = current_process s"
  unfolding stop_player_def
  by (cases "backend_call E (PlayerStop p) s"; cases "fst (backend_call E (PlayerStop p) s)";
      use backend_call_fields[of E "PlayerStop p" s] in \<open>simp add: backend_call_fields\<close>)+

lemma stop_process_fields:
  "mic_name (stop_process E q s) = mic_name s"
  "vlc_instance (stop_process E q s) = vlc_instance s"
  "vlc_player (stop_process E q s) = vlc_player s"
  "current_process (stop_process E q s) = current_process s"
  unfolding stop_process_def
  by (cases "backend_call E (ProcTerminate q) s";
      cases "fst (backend_call E (ProcTerminate q) s)";
      cases "backend_call E (ProcWait q 1) (snd (backend_call E (ProcTerminate q) s))";
      cases "fst (backend_call E (ProcWait q 1) (snd (backend_call E (ProcTerminate q) s)))";
      use backend_call_fields[of E "ProcTerminate q" s]
          backend_call_fields[of E "ProcWait q 1" "snd (backend_call E (ProcTerminate q) s)"]
      in \<open>simp add: backend_call_fields\<close>)+

lemma stop_playback_fields:
  "fst (stop_playback E s) = Inr ()"
  "vlc_player (snd (stop_playback E s)) = None"
  "current_process (snd (stop_playback E s)) = None"
  "mic_name (snd (stop_playback E s)) = mic_name s"
  "vlc_instance (snd (stop_playback E s)) = vlc_instance s"
  by (auto simp: stop_playback_def Let_def stop_player_fields stop_process_fields
      split: option.splits)

lemma stop_playback_idle:
  "vlc_player s = None \<Longrightarrow> current_process s = None \<Longrightarrow> stop_playback E s = (Inr (), s)"
  by (simp add: stop_playback_def)

text \<open>
  C7. \<open>stop_playback\<close> returns normally in every environment, also one whose backend
  raises on every call; it ends with the player handle (and the process handle) cleared;
  a second call right after the first changes nothing and returns normally; and with no
  handle held the call is a no-op.
\<close>

theorem stop_playback_never_fails:
  "fst (stop_playback E s) = Inr ()
   \<and> vlc_player (snd (stop_playback E s)) = None
   \<and> current_process (snd (stop_playback E s)) = None
   \<and> stop_playback E (snd (stop_playback E s)) = (Inr (), snd (stop_playback E s))
   \<and> stop_playback E (s\<lparr>vlc_player := None, current_process := None\<rparr>)
        = (Inr (), s\<lparr>vlc_player := None, current_process := None\<rparr>)"
  by (simp add: stop_playback_fields stop_playback_idle)

theorem stop_playback_never_fails_witness:
  "stop_playback blank_env one_player
     = (Inr (), one_player\<lparr>vlc_player := None,
                  trace := [Backend (PlayerStop 1) (Exc ''backend error'')]\<rparr>)
   \<and> stop_playback blank_env (snd (stop_playback blank_env one_player))
     = (Inr (), snd (stop_playback blank_env one_player))"
proof -
  have "stop_playback blank_env one_player
     = (Inr (), one_player\<lparr>vlc_player := None,
                  trace := [Backend (PlayerStop 1) (Exc ''backend error'')]\<rparr>)"
    by (simp add: stop_playback_def stop_player_def backend_call_def blank_env_def one_player_def
          VirtualMicManager_init_def emit_def Let_def is_constructor_def)
  then show ?thesis
    using stop_playback_never_fails [of blank_env one_player] by simp
qed

subsection \<open>play_audio_vlc\<close>

text \<open>
  C6. For a path that does not exist, \<open>play_audio_vlc\<close> returns the not-found failure
  and the state is the one before the call: the same player handle, and not one more
  effect in the trace (no stop, no player created, no routing call).
\<close>

theorem play_missing_file:
  "\<not> path_exists E (trace s) audio_path \<Longrightarrow>
   play_audio_vlc E audio_path s = (Inr (False, ''File not found''), s)"
  by (simp add: play_audio_vlc_def)

theorem play_missing_file_witness:
  "\<not> path_exists demo_env (trace (snd (play_audio_vlc demo_env ''/m/a.wav'' VirtualMicManager_init)))
        ''/m/c.wav''
   \<and> play_audio_vlc demo_env ''/m/c.wav''
        (snd (play_audio_vlc demo_env ''/m/a.wav'' VirtualMicManager_init))
      = (Inr (False, ''File not found''),
         snd (play_audio_vlc demo_env ''/m/a.wav'' VirtualMicManager_init))"
  using play_missing_file [of demo_env
      "snd (play_audio_vlc demo_env ''/m/a.wav'' VirtualMicManager_init)" "''/m/c.wav''"]
  by (simp add: demo_env_def)

subsection \<open>setup\<close>

lemma run_cmd_fields:
  "mic_name (snd (run_cmd E cmd t s)) = mic_name s"
  "vlc_instance (snd (run_cmd E cmd t s)) = vlc_instance s"
  "vlc_player (snd (run_cmd E cmd t s)) = vlc_player s"
  "current_process (snd (run_cmd E cmd t s)) = current_process s"
  by (simp_all add: snd_run_cmd emit_fields)

lemma unload_modules_fields:
  "mic_name (unload_modules E ms s) = mic_name s"
  "vlc_instance (unload_modules E ms s) = vlc_instance s"
  "vlc_player (unload_modules E ms s) = vlc_player s"
  "current_process (unload_modules E ms s) = current_process s"
  by (induction E ms s rule: unload_modules.induct; simp add: Let_def run_cmd_fields emit_fields)+

lemma cleanup_all_fields:
  "mic_name (snd (cleanup_all E s)) = mic_name s"
  "vlc_instance (snd (cleanup_all E s)) = vlc_instance s"
  "vlc_player (snd (cleanup_all E s)) = None"
  "current_process (snd (cleanup_all E s)) = None"
  unfolding cleanup_all_def Let_def
  by (cases "run_cmd E [''pactl'', ''list'', ''modules'', ''short''] 5
               (snd (stop_playback E (emit (Print ''Cleaning up virtual audio devices...'') s)))";
      use run_cmd_fields[of E "[''pactl'', ''list'', ''modules'', ''short'']" 5
              "snd (stop_playback E (emit (Print ''Cleaning up virtual audio devices...'') s))"]
      in \<open>auto simp: emit_fields unload_modules_fields stop_playback_fields split: sum.splits\<close>)+

lemma verify_result:
  "verify E out s =
     (let s1 = emit (Print (''Created virtual microphone: '' @ out)) s;
          s2 = snd (run_cmd E [''pactl'', ''set-default-source'', mic_name s @ ''.monitor''] 5 s1);
          s3 = emit (Sleep 2000) s2;
          r = run_cmd E [''pactl'', ''list'', ''sources'', ''short''] 5 s3
      in (Inr (if str_in (mic_name s @ ''.monitor'') (fst (snd (fst r)))
               then (True, ''Virtual Microphone Created '' @ [CHR 0x27] @ mic_name s @ [CHR 0x27])
               else (False, ''Failed to create virtual microphone'')), snd r))"
  by (simp add: verify_def Let_def emit_fields run_cmd_fields case_prod_beta)

lemma verify_trace_longer: "length (trace (snd (verify E out s))) = length (trace s) + 4"
  by (simp add: verify_result Let_def snd_run_cmd trace_emit)


lemma setup_after_cleanup:
  assumes "cleanup_all E (emit (Print (''Creating virtual microphone: '' @ mic_name s)) s) = (Inr (), s1)"
  shows "setup_manager E s = create E (emit (Sleep 2000) s1)" "mic_name s1 = mic_name s"
  using assms cleanup_all_fields(1)[of E "emit (Print (''Creating virtual microphone: '' @ mic_name s)) s"]
  by (simp_all add: setup_manager_def Let_def emit_fields)





text \<open>
  C5. After a creation call that succeeded, \<open>setup\<close> makes the monitor the default source,
  waits two seconds, lists the sources, and returns success if the name of the monitor
  source (the device name followed by \<open>.monitor\<close>) occurs in that listing, and the
  failure result otherwise.
\<close>

theorem setup_verification:
  assumes "cleanup_all E (emit (Print (''Creating virtual microphone: '' @ mic_name s)) s) = (Inr (), s1)"
      and "run_cmd E (load_cmd (mic_name s)) 5 (emit (Sleep 2000) s1) = ((0, out, err), s2)"
      and "isdigit out"
      and "run_cmd E [''pactl'', ''set-default-source'', mic_name s @ ''.monitor''] 5
             (emit (Print (''Created virtual microphone: '' @ out)) s2) = (r, s3)"
      and "run_cmd E [''pactl'', ''list'', ''sources'', ''short''] 5 (emit (Sleep 2000) s3)
             = ((rc', sources, err'), s4)"
  shows "setup_manager E s =
           (if str_in (mic_name s @ ''.monitor'') sources
            then (Inr (True, ''Virtual Microphone Created '' @ [CHR 0x27] @ mic_name s @ [CHR 0x27]), s4)
            else (Inr (False, ''Failed to create virtual microphone''), s4))"
proof -
  have c: "setup_manager E s = create E (emit (Sleep 2000) s1)" and n: "mic_name s1 = mic_name s"
    using setup_after_cleanup[OF assms(1)] by simp_all
  have n2: "mic_name s2 = mic_name s"
    using run_cmd_fields(1)[of E "load_cmd (mic_name s)" 5 "emit (Sleep 2000) s1"] assms(2)
    by (simp add: emit_fields n)
  have "create E (emit (Sleep 2000) s1) = verify E out s2"
    using assms(2,3) by (simp add: create_def emit_fields n)
  then show ?thesis
    using assms(4,5) by (simp add: c verify_result Let_def n2)
qed

theorem setup_verification_witness:
  "isdigit ''42''
   \<and> str_in (mic_name VirtualMicManager_init @ ''.monitor'') (''1'' @ [CHR 0x09] @ ''Real4n54n.monitor'')
   \<and> fst (setup_manager demo_env VirtualMicManager_init)
        = Inr (True, ''Virtual Microphone Created '' @ [CHR 0x27] @ ''Real4n54n'' @ [CHR 0x27])"
proof -
  let ?n = "mic_name VirtualMicManager_init"
  let ?s0 = "emit (Print (''Creating virtual microphone: '' @ ?n)) VirtualMicManager_init"
  let ?s1 = "snd (cleanup_all demo_env ?s0)"
  let ?r2 = "run_cmd demo_env (load_cmd ?n) 5 (emit (Sleep 2000) ?s1)"
  let ?r3 = "run_cmd demo_env [''pactl'', ''set-default-source'', ?n @ ''.monitor''] 5
               (emit (Print (''Created virtual microphone: '' @ ''42'')) (snd ?r2))"
  let ?r4 = "run_cmd demo_env [''pactl'', ''list'', ''sources'', ''short''] 5
               (emit (Sleep 2000) (snd ?r3))"
  have "fst (cleanup_all demo_env ?s0) = Inr ()" by code_simp
  then have h1: "cleanup_all demo_env ?s0 = (Inr (), ?s1)" by (metis prod.collapse)
  have "fst ?r2 = (0, ''42'', [])"
    by (simp add: run_cmd_def demo_env_def demo_shell_def load_cmd_def Let_def strip_def is_space_def)
  then have h2: "?r2 = ((0, ''42'', []), snd ?r2)" by (metis prod.collapse)
  have h3: "isdigit ''42''" by (simp add: isdigit_def is_digit_def is_decimal_def)
  have h4: "?r3 = (fst ?r3, snd ?r3)" by simp
  have "fst ?r4 = (0, ''1'' @ [CHR 0x09] @ ''Real4n54n.monitor'', [])"
    by (simp add: run_cmd_def demo_env_def demo_shell_def Let_def strip_def is_space_def)
  then have h5: "?r4 = ((0, ''1'' @ [CHR 0x09] @ ''Real4n54n.monitor'', []), snd ?r4)"
    by (metis prod.collapse)
  have v: "str_in (?n @ ''.monitor'') (''1'' @ [CHR 0x09] @ ''Real4n54n.monitor'')"
    by (simp add: VirtualMicManager_init_def)
  show ?thesis
    using setup_verification [OF h1 h2 h3 h4 h5] h3 v by (simp add: VirtualMicManager_init_def)
qed

subsection \<open>update_progress\<close>

lemma new_events_append: "trace s' = trace s @ d \<Longrightarrow> new_events s s' = d"
  by (simp add: new_events_def)

lemma getter_unfold:
  "is_playing E s = (case vlc_player s of
       Some p \<Rightarrow> (fst (backend_call E (IsPlaying p) s), emit (Backend (IsPlaying p) (fst (backend_call E (IsPlaying p) s))) s)
     | None \<Rightarrow> (Ret 0, s))"
  "get_playback_time E s = (case vlc_player s of
       Some p \<Rightarrow> (fst (backend_call E (GetTime p) s), emit (Backend (GetTime p) (fst (backend_call E (GetTime p) s))) s)
     | None \<Rightarrow> (Ret 0, s))"
  "get_media_length E s = (case vlc_player s of
       Some p \<Rightarrow> (fst (backend_call E (GetLength p) s), emit (Backend (GetLength p) (fst (backend_call E (GetLength p) s))) s)
     | None \<Rightarrow> (Ret 0, s))"
  by (simp_all add: is_playing_def get_playback_time_def get_media_length_def
        backend_call_snd[symmetric] split: option.splits)

lemma new_events_emit3:
  "new_events s s = []"
  "new_events s (emit e1 s) = [e1]"
  "new_events s (emit e2 (emit e1 s)) = [e1, e2]"
  "new_events s (emit e3 (emit e2 (emit e1 s))) = [e1, e2, e3]"
  "new_events s (emit e4 (emit e3 (emit e2 (emit e1 s)))) = [e1, e2, e3, e4]"
  by (simp_all add: new_events_def trace_emit)

text \<open>
  C9. A poll never ends in a division by zero. A progress value is set only after the
  backend reported a media length strictly greater than zero in that poll, and it is the
  percentage computed from the reported time and that length; when the reported length is
  zero or negative (unknown), the poll returns normally and sets no progress value.
\<close>

theorem update_progress_guard:
  "fst (update_progress E a) \<noteq> Inl ZeroDivisionError
   \<and> (\<forall>v. SetValue v \<in> set (new_events (mic a) (mic (snd (update_progress E a)))) \<longrightarrow>
          (\<exists>p c t. Backend (GetTime p) (Ret c) \<in> set (new_events (mic a) (mic (snd (update_progress E a))))
                 \<and> Backend (GetLength p) (Ret t) \<in> set (new_events (mic a) (mic (snd (update_progress E a))))
                 \<and> 0 < t \<and> progress_percent E c t = Inr v))
   \<and> (\<forall>p t. Backend (GetLength p) (Ret t) \<in> set (new_events (mic a) (mic (snd (update_progress E a)))) \<and> t \<le> 0 \<longrightarrow>
          fst (update_progress E a) = Inr ()
          \<and> (\<forall>v. SetValue v \<notin> set (new_events (mic a) (mic (snd (update_progress E a))))))"
proof (cases "vlc_player (mic a)")
  case None
  then show ?thesis
    by (simp add: update_progress_def getter_unfold new_events_emit3)
next
  case (Some p)
  define r1 where "r1 = fst (backend_call E (IsPlaying p) (mic a))"
  define s1 where "s1 = emit (Backend (IsPlaying p) r1) (mic a)"
  define r2 where "r2 = fst (backend_call E (GetTime p) s1)"
  define s2 where "s2 = emit (Backend (GetTime p) r2) s1"
  define r3 where "r3 = fst (backend_call E (GetLength p) s2)"
  define s3 where "s3 = emit (Backend (GetLength p) r3) s2"
  have p1: "vlc_player s1 = Some p" and p2: "vlc_player s2 = Some p"
    by (simp_all add: s1_def s2_def emit_fields Some)
  have g1: "is_playing E (mic a) = (r1, s1)"
    by (simp add: getter_unfold Some r1_def s1_def)
  have g2: "get_playback_time E s1 = (r2, s2)"
    by (simp add: getter_unfold p1 r2_def s2_def)
  have g3: "get_media_length E s2 = (r3, s3)"
    by (simp add: getter_unfold p2 r3_def s3_def)
  have n1: "new_events (mic a) s1 = [Backend (IsPlaying p) r1]"
    and n2: "new_events (mic a) s2 = [Backend (IsPlaying p) r1, Backend (GetTime p) r2]"
    and n3: "new_events (mic a) s3 = [Backend (IsPlaying p) r1, Backend (GetTime p) r2, Backend (GetLength p) r3]"
    and n4: "\<And>e. new_events (mic a) (emit e s3) = [Backend (IsPlaying p) r1, Backend (GetTime p) r2, Backend (GetLength p) r3, e]"
    by (simp_all add: s1_def s2_def s3_def new_events_emit3)
  show ?thesis
    unfolding update_progress_def g1
    by (cases "app_is_playing a"; cases r1; cases r2; cases r3)
       (simp_all add: g2 g3 n1 n2 n3 n4 new_events_emit3 progress_percent_def)
qed

theorem update_progress_guard_witness:
  "new_events one_player (mic (snd (update_progress demo_env \<lparr>mic = one_player, app_is_playing = True\<rparr>)))
     = [Backend (IsPlaying 1) (Ret 1), Backend (GetTime 1) (Ret 1500),
        Backend (GetLength 1) (Ret 6000), SetValue 25]
   \<and> progress_percent demo_env 1500 6000 = Inr 25
   \<and> fst (update_progress demo_env \<lparr>mic = one_player, app_is_playing = True\<rparr>) \<noteq> Inl ZeroDivisionError
   \<and> new_events one_player (mic (snd (update_progress unknown_length_env \<lparr>mic = one_player, app_is_playing = True\<rparr>)))
     = [Backend (IsPlaying 1) (Ret 1), Backend (GetTime 1) (Ret 40), Backend (GetLength 1) (Ret 0)]
   \<and> fst (update_progress unknown_length_env \<lparr>mic = one_player, app_is_playing = True\<rparr>) = Inr ()"
proof -
  have a: "new_events one_player (mic (snd (update_progress demo_env \<lparr>mic = one_player, app_is_playing = True\<rparr>)))
     = [Backend (IsPlaying 1) (Ret 1), Backend (GetTime 1) (Ret 1500),
        Backend (GetLength 1) (Ret 6000), SetValue 25]"
    by code_simp
  have b: "new_events one_player (mic (snd (update_progress unknown_length_env \<lparr>mic = one_player, app_is_playing = True\<rparr>)))
     = [Backend (IsPlaying 1) (Ret 1), Backend (GetTime 1) (Ret 40), Backend (GetLength 1) (Ret 0)]"
    by code_simp
  have c: "progress_percent demo_env 1500 6000 = Inr 25"
    by (simp add: progress_percent_def demo_env_def)
  have d: "fst (update_progress unknown_length_env \<lparr>mic = one_player, app_is_playing = True\<rparr>) = Inr ()"
    using update_progress_guard [of unknown_length_env "\<lparr>mic = one_player, app_is_playing = True\<rparr>"]
    by (simp add: b)
  have e: "fst (update_progress demo_env \<lparr>mic = one_player, app_is_playing = True\<rparr>) \<noteq> Inl ZeroDivisionError"
    using update_progress_guard [of demo_env "\<lparr>mic = one_player, app_is_playing = True\<rparr>"] by blast
  show ?thesis using a b c d e by blast
qed

subsection \<open>cleanup_all: which modules are removed\<close>

lemma str_in_sublist: "str_in k s \<longleftrightarrow> sublist k s"
  by (induction s) (simp_all add: sublist_Cons_right)

lemma all_space_split_acc: "\<forall>c\<in>set s. is_space c \<Longrightarrow> split_acc [] s = []"
  by (induction s) simp_all

lemma strip_empty_all_space:
  assumes "strip s = []" shows "\<forall>c\<in>set s. is_space c"
proof -
  have "dropWhile is_space (rev (dropWhile is_space s)) = []"
    using assms by (simp add: strip_def)
  then have "\<forall>c\<in>set (dropWhile is_space s). is_space c"
    by (simp add: dropWhile_eq_Nil_conv)
  then have "dropWhile is_space s = []"
    by (metis hd_dropWhile hd_in_set)
  then show ?thesis by (simp add: dropWhile_eq_Nil_conv)
qed

lemma strip_empty_split: "strip s = [] \<Longrightarrow> split s = []"
  by (simp add: split_def all_space_split_acc strip_empty_all_space)

lemma scan_modules_Cons:
  "scan_modules (line # lines) =
     (case split line of
        module_id # p # ps \<Rightarrow>
          if is_virtual_module (join '' '' (p # ps))
          then (module_id, join '' '' (p # ps)) # scan_modules lines
          else scan_modules lines
      | _ \<Rightarrow> scan_modules lines)"
  by (cases "strip line = []") (simp_all add: strip_empty_split Let_def split: list.splits)

lemma scan_modules_mem:
  "(module_id, info) \<in> set (scan_modules lines) \<longleftrightarrow>
     (\<exists>line\<in>set lines. \<exists>p ps. split line = module_id # p # ps \<and> info = join '' '' (p # ps)
         \<and> is_virtual_module info)"
proof (induction lines)
  case Nil
  then show ?case by simp
next
  case (Cons line lines)
  show ?case
    unfolding scan_modules_Cons
    using Cons.IH by (auto split: list.splits)
qed

lemma scan_modules_length: "length (scan_modules lines) = length (filter line_matches lines)"
proof (induction lines)
  case Nil
  then show ?case by simp
next
  case (Cons line lines)
  show ?case
    unfolding scan_modules_Cons
    using Cons.IH by (auto simp: line_matches_def split: list.splits)
qed

lemma lower_name: "lower (mic_name VirtualMicManager_init) = ''real4n54n''"
  by code_simp

lemma is_virtual_module_iff:
  "is_virtual_module info \<longleftrightarrow>
     (\<exists>k\<in>set [''null-sink'', ''virtual'', ''mic'', lower (mic_name VirtualMicManager_init),
               ''remap'', ''loopback'']. sublist k (lower info))"
  unfolding lower_name is_virtual_module_def virtual_keywords_def list_ex_iff str_in_sublist ..

lemma backend_call_eq: "backend_call E c s = (r, s1) \<Longrightarrow> s1 = emit (Backend c r) s"
  using backend_call_snd[of E c s] by simp

lemma unload_calls_append: "unload_calls (a @ b) = unload_calls a @ unload_calls b"
  by (simp add: unload_calls_def List.map_filter_def)

lemma unload_calls_none: "list_all (\<lambda>e. \<not> is_unload e) a \<Longrightarrow> unload_calls a = []"
  by (induction a) (simp_all add: unload_calls_def List.map_filter_def)

lemma stop_event_kinds: "is_stop_event e \<Longrightarrow> \<not> is_unload e \<and> \<not> is_load e \<and> created_by e = None"
  by (cases e rule: is_stop_event.cases) simp_all

lemma stop_player_trace:
  "\<exists>a. trace (stop_player E p s) = trace s @ a \<and> list_all is_stop_event a"
proof (cases "backend_call E (PlayerStop p) s")
  case (Pair r s1)
  note s1 = backend_call_eq[OF Pair]
  show ?thesis
  proof (cases r)
    case (Ret v)
    then show ?thesis
      by (simp add: stop_player_def Pair s1 backend_call_snd trace_emit)
  next
    case (Exc m)
    then show ?thesis
      by (simp add: stop_player_def Pair s1 trace_emit)
  qed
qed

lemma stop_process_trace:
  "\<exists>a. trace (stop_process E q s) = trace s @ a \<and> list_all is_stop_event a"
proof -
  define r where "r = fst (backend_call E (ProcTerminate q) s)"
  define s1 where "s1 = emit (Backend (ProcTerminate q) r) s"
  define r2 where "r2 = fst (backend_call E (ProcWait q 1) s1)"
  define s2 where "s2 = emit (Backend (ProcWait q 1) r2) s1"
  have 1: "backend_call E (ProcTerminate q) s = (r, s1)"
    using backend_call_snd[of E "ProcTerminate q" s] by (simp add: r_def s1_def prod_eq_iff)
  have 2: "backend_call E (ProcWait q 1) s1 = (r2, s2)"
    using backend_call_snd[of E "ProcWait q 1" s1] by (simp add: r2_def s2_def prod_eq_iff)
  have t: "trace s1 = trace s @ [Backend (ProcTerminate q) r]"
    "trace s2 = trace s @ [Backend (ProcTerminate q) r, Backend (ProcWait q 1) r2]"
    by (simp_all add: s1_def s2_def trace_emit)
  show ?thesis
    unfolding stop_process_def 1
    by (cases r; cases r2) (simp_all add: 2 t backend_call_snd trace_emit)
qed

lemma stop_playback_trace:
  "\<exists>a. trace (snd (stop_playback E s)) = trace s @ a \<and> list_all is_stop_event a"
proof -
  define s1 where "s1 = (case vlc_player s of None \<Rightarrow> s
                          | Some p \<Rightarrow> (stop_player E p s)\<lparr>vlc_player := None\<rparr>)"
  have "\<exists>a. trace s1 = trace s @ a \<and> list_all is_stop_event a"
    using stop_player_trace[of E _ s] by (cases "vlc_player s") (simp_all add: s1_def)
  then obtain a where a: "trace s1 = trace s @ a" "list_all is_stop_event a" by blast
  define s2 where "s2 = (case current_process s1 of None \<Rightarrow> s1
                          | Some q \<Rightarrow> (stop_process E q s1)\<lparr>current_process := None\<rparr>)"
  have "\<exists>b. trace s2 = trace s1 @ b \<and> list_all is_stop_event b"
    using stop_process_trace[of E _ s1] by (cases "current_process s1") (simp_all add: s2_def)
  then obtain b where b: "trace s2 = trace s1 @ b" "list_all is_stop_event b" by blast
  have "snd (stop_playback E s) = s2"
    unfolding stop_playback_def s1_def s2_def Let_def by simp
  then show ?thesis using a b by auto
qed

lemma unload_modules_trace:
  "\<exists>d. trace (unload_modules E ms s) = trace s @ d
       \<and> unload_calls d = map (\<lambda>m. [''pactl'', ''unload-module'', fst m]) ms
       \<and> list_all (\<lambda>e. \<not> is_stop_event e \<and> \<not> is_load e) d"
proof (induction ms arbitrary: s)
  case Nil
  show ?case by (simp add: unload_calls_def List.map_filter_def)
next
  case (Cons m ms)
  obtain module_id module_info where m: "m = (module_id, module_info)" by (cases m)
  define e1 where "e1 = Print (''Removing: '' @ module_id @ '' - '' @ module_info)"
  define e2 where "e2 = Subprocess [''pactl'', ''unload-module'', module_id] 5
      (subprocess_run E (trace s @ [e1]) [''pactl'', ''unload-module'', module_id] 5)"
  define s3 where "s3 = emit (Sleep 100) (emit e2 (emit e1 s))"
  have step: "unload_modules E (m # ms) s = unload_modules E ms s3"
    by (simp add: m Let_def snd_run_cmd s3_def e1_def e2_def trace_emit)
  have t3: "trace s3 = trace s @ [e1, e2, Sleep 100]"
    by (simp add: s3_def trace_emit)
  obtain d where d: "trace (unload_modules E ms s3) = trace s3 @ d"
      "unload_calls d = map (\<lambda>m. [''pactl'', ''unload-module'', fst m]) ms"
      "list_all (\<lambda>e. \<not> is_stop_event e \<and> \<not> is_load e) d"
    using Cons.IH[of s3] by blast
  have u: "unload_calls [e1, e2, Sleep 100] = [[''pactl'', ''unload-module'', module_id]]"
    by (simp add: unload_calls_def List.map_filter_def e1_def e2_def)
  have "trace (unload_modules E (m # ms) s) = trace s @ ([e1, e2, Sleep 100] @ d)"
    by (simp add: step d(1) t3)
  moreover have "unload_calls ([e1, e2, Sleep 100] @ d)
      = map (\<lambda>m. [''pactl'', ''unload-module'', fst m]) (m # ms)"
    unfolding unload_calls_append u d(2) by (simp add: m)
  moreover have "list_all (\<lambda>e. \<not> is_stop_event e \<and> \<not> is_load e) ([e1, e2, Sleep 100] @ d)"
    using d(3) by (simp add: e1_def e2_def)
  ultimately show ?case by blast
qed

lemma sorted_modules_numeric:
  assumes "\<forall>m\<in>set ms. py_int (fst m) \<noteq> None"
  shows "sorted_modules ms = Inr (rev (sort_key (\<lambda>x. the (py_int (fst x))) (rev ms)))"
proof -
  have "find (\<lambda>x. py_int (fst x) = None) ms = None"
    using assms by (force simp: find_None_iff)
  then show ?thesis by (simp add: sorted_modules_def)
qed

lemma sorted_modules_set: "sorted_modules ms = Inr ms' \<Longrightarrow> set ms' = set ms"
  by (auto simp: sorted_modules_def split: option.splits)

lemma distinct_map_sort_key: "distinct (map k (sort_key k xs)) = distinct (map k xs)"
  by (induction xs) (simp_all add: distinct_insort_key)

lemma descending_after_sort:
  fixes k :: "'a \<Rightarrow> int"
  assumes "distinct (map k ms)"
  shows "sorted_wrt (\<lambda>x y. k x > k y) (rev (sort_key k (rev ms)))"
proof -
  have "sorted (map k (sort_key k (rev ms)))" by simp
  moreover have "distinct (map k (sort_key k (rev ms)))"
    using assms by (simp add: distinct_map_sort_key rev_map[symmetric])
  ultimately have "sorted_wrt (<) (map k (sort_key k (rev ms)))"
    by (simp add: strict_sorted_iff)
  then have "sorted_wrt (\<lambda>x y. k x < k y) (sort_key k (rev ms))"
    by (simp add: sorted_wrt_map)
  then show ?thesis by (simp add: sorted_wrt_rev)
qed

lemma cleanup_all_trace:
  assumes "run_cmd E [''pactl'', ''list'', ''modules'', ''short''] 5
             (snd (stop_playback E (emit (Print ''Cleaning up virtual audio devices...'') s)))
           = ((rc, out, err), s3)"
  shows "\<exists>a r b. trace (snd (cleanup_all E s))
                 = trace s @ [Print ''Cleaning up virtual audio devices...''] @ a
                   @ (Subprocess [''pactl'', ''list'', ''modules'', ''short''] 5 r # b)
          \<and> trace (snd (stop_playback E (emit (Print ''Cleaning up virtual audio devices...'') s)))
              = trace s @ [Print ''Cleaning up virtual audio devices...''] @ a
          \<and> list_all is_stop_event a
          \<and> list_all (\<lambda>e. \<not> is_stop_event e \<and> \<not> is_load e) b
          \<and> unload_calls b =
               (if rc = 0
                then (case sorted_modules (scan_modules (split_on CHR 0x0A out)) of
                        Inl e \<Rightarrow> []
                      | Inr ms \<Rightarrow> map (\<lambda>m. [''pactl'', ''unload-module'', fst m]) ms)
                else [])"
proof -
  let ?c = "Print ''Cleaning up virtual audio devices...''"
  let ?l = "[''pactl'', ''list'', ''modules'', ''short'']"
  define s2 where "s2 = snd (stop_playback E (emit ?c s))"
  obtain a where a: "trace s2 = trace s @ [?c] @ a" "list_all is_stop_event a"
    using stop_playback_trace[of E "emit ?c s"] by (auto simp: s2_def trace_emit)
  define r where "r = subprocess_run E (trace s2) ?l 5"
  have s3: "s3 = emit (Subprocess ?l 5 r) s2"
    using assms snd_run_cmd[of E ?l 5 s2] by (simp add: s2_def r_def)
  have t3: "trace s3 = trace s @ [?c] @ a @ [Subprocess ?l 5 r]"
    by (simp add: s3 trace_emit a)
  have run: "run_cmd E ?l 5 s2 = ((rc, out, err), s3)" using assms by (simp add: s2_def)
  have empty: "unload_calls [] = []" by (simp add: unload_calls_def List.map_filter_def)
  have sl: "unload_calls [Sleep 2000] = []" by (simp add: unload_calls_def List.map_filter_def)
  show ?thesis
  proof (cases "rc = 0")
    case False
    then have "snd (cleanup_all E s) = emit (Sleep 2000) s3"
      by (simp add: cleanup_all_def Let_def run s2_def[symmetric])
    then have "trace (snd (cleanup_all E s)) = trace s @ [?c] @ a @ (Subprocess ?l 5 r # [Sleep 2000])"
      by (simp add: trace_emit t3)
    then show ?thesis using a False sl by (fastforce simp: s2_def)
  next
    case True
    show ?thesis
    proof (cases "sorted_modules (scan_modules (split_on CHR 0x0A out))")
      case (Inl e)
      then have "snd (cleanup_all E s) = s3"
        by (simp add: cleanup_all_def Let_def run True s2_def[symmetric])
      then have "trace (snd (cleanup_all E s)) = trace s @ [?c] @ a @ (Subprocess ?l 5 r # [])"
        by (simp add: t3)
      then show ?thesis using a True Inl empty by (fastforce simp: s2_def)
    next
      case (Inr ms)
      then have c: "snd (cleanup_all E s) = emit (Sleep 2000) (unload_modules E ms s3)"
        by (simp add: cleanup_all_def Let_def run True s2_def[symmetric])
      obtain d where d: "trace (unload_modules E ms s3) = trace s3 @ d"
          "unload_calls d = map (\<lambda>m. [''pactl'', ''unload-module'', fst m]) ms"
          "list_all (\<lambda>e. \<not> is_stop_event e \<and> \<not> is_load e) d"
        using unload_modules_trace[of E ms s3] by blast
      have "trace (snd (cleanup_all E s)) = trace s @ [?c] @ a @ (Subprocess ?l 5 r # (d @ [Sleep 2000]))"
        by (simp add: c trace_emit d(1) t3)
      moreover have "unload_calls (d @ [Sleep 2000]) = map (\<lambda>m. [''pactl'', ''unload-module'', fst m]) ms"
        by (simp add: unload_calls_append d(2) sl)
      moreover have "list_all (\<lambda>e. \<not> is_stop_event e \<and> \<not> is_load e) (d @ [Sleep 2000])"
        using d(3) by simp
      ultimately show ?thesis using a True Inr unfolding s2_def by fastforce
    qed
  qed
qed

lemma cleanup_all_unload_calls:
  assumes "run_cmd E [''pactl'', ''list'', ''modules'', ''short''] 5
             (snd (stop_playback E (emit (Print ''Cleaning up virtual audio devices...'') s)))
           = ((rc, out, err), s3)"
  shows "unload_calls (new_events s (snd (cleanup_all E s))) =
               (if rc = 0
                then (case sorted_modules (scan_modules (split_on CHR 0x0A out)) of
                        Inl e \<Rightarrow> []
                      | Inr ms \<Rightarrow> map (\<lambda>m. [''pactl'', ''unload-module'', fst m]) ms)
                else [])"
proof -
  obtain a r b where t: "trace (snd (cleanup_all E s))
                 = trace s @ [Print ''Cleaning up virtual audio devices...''] @ a
                   @ (Subprocess [''pactl'', ''list'', ''modules'', ''short''] 5 r # b)"
      and a: "list_all is_stop_event a"
      and u: "unload_calls b =
               (if rc = 0
                then (case sorted_modules (scan_modules (split_on CHR 0x0A out)) of
                        Inl e \<Rightarrow> []
                      | Inr ms \<Rightarrow> map (\<lambda>m. [''pactl'', ''unload-module'', fst m]) ms)
                else [])"
    using cleanup_all_trace[OF assms] by blast
  have "list_all (\<lambda>e. \<not> is_unload e) a"
    using a stop_event_kinds by (induction a) auto
  then have ua: "unload_calls a = []" by (rule unload_calls_none)
  have n: "new_events s (snd (cleanup_all E s)) = [Print ''Cleaning up virtual audio devices...''] @ a
                   @ [Subprocess [''pactl'', ''list'', ''modules'', ''short''] 5 r] @ b"
    by (simp add: new_events_def t)
  have "unload_calls (new_events s (snd (cleanup_all E s))) = unload_calls b"
    unfolding n unload_calls_append ua by (simp add: unload_calls_def List.map_filter_def)
  then show ?thesis using u by simp
qed

lemma demo_unload_calls:
  "unload_calls (new_events VirtualMicManager_init (snd (cleanup_all demo_env VirtualMicManager_init)))
     = [[''pactl'', ''unload-module'', ''30''], [''pactl'', ''unload-module'', ''12''],
        [''pactl'', ''unload-module'', ''9'']]"
  by code_simp

text \<open>
  C8. The metadata of a module (the fields of its line after the ID, joined by single
  blanks) marks it for removal exactly when, in lower case, it contains one of
  \<open>null-sink\<close>, \<open>virtual\<close>, \<open>mic\<close>, the lower-cased device name, \<open>remap\<close>, \<open>loopback\<close>
  as a substring. The modules marked are exactly those of the lines with an ID and such
  metadata, and every unload-module call that \<open>cleanup_all\<close> issues is for one of them.
\<close>

theorem denylist_match:
  "(is_virtual_module info \<longleftrightarrow>
      (\<exists>k\<in>set [''null-sink'', ''virtual'', ''mic'', lower (mic_name VirtualMicManager_init),
                ''remap'', ''loopback'']. sublist k (lower info)))
   \<and> ((module_id, info) \<in> set (scan_modules lines) \<longleftrightarrow>
        (\<exists>line\<in>set lines. \<exists>p ps. split line = module_id # p # ps
            \<and> info = join '' '' (p # ps) \<and> is_virtual_module info))
   \<and> (\<forall>cmd\<in>set (unload_calls (new_events s (snd (cleanup_all E s)))).
        \<exists>mid minfo. cmd = [''pactl'', ''unload-module'', mid]
          \<and> (mid, minfo) \<in> set (scan_modules (split_on CHR 0x0A
                (fst (snd (fst (run_cmd E [''pactl'', ''list'', ''modules'', ''short''] 5
                   (snd (stop_playback E
                      (emit (Print ''Cleaning up virtual audio devices...'') s)))))))))
          \<and> is_virtual_module minfo)"
proof -
  let ?r = "run_cmd E [''pactl'', ''list'', ''modules'', ''short''] 5
              (snd (stop_playback E (emit (Print ''Cleaning up virtual audio devices...'') s)))"
  let ?ms = "scan_modules (split_on CHR 0x0A (fst (snd (fst ?r))))"
  have r: "?r = ((fst (fst ?r), fst (snd (fst ?r)), snd (snd (fst ?r))), snd ?r)" by simp
  have u: "unload_calls (new_events s (snd (cleanup_all E s))) =
      (if fst (fst ?r) = 0
       then (case sorted_modules ?ms of
               Inl e \<Rightarrow> []
             | Inr ms \<Rightarrow> map (\<lambda>m. [''pactl'', ''unload-module'', fst m]) ms)
       else [])"
    by (rule cleanup_all_unload_calls[OF r])
  have "\<exists>mid minfo. cmd = [''pactl'', ''unload-module'', mid] \<and> (mid, minfo) \<in> set ?ms
          \<and> is_virtual_module minfo"
    if "cmd \<in> set (unload_calls (new_events s (snd (cleanup_all E s))))" for cmd
  proof (cases "sorted_modules ?ms")
    case (Inl e)
    then have "unload_calls (new_events s (snd (cleanup_all E s))) = []"
      unfolding u by simp
    then show ?thesis using that by simp
  next
    case (Inr ms')
    have "set (unload_calls (new_events s (snd (cleanup_all E s))))
        \<subseteq> (\<lambda>m. [''pactl'', ''unload-module'', fst m]) ` set ms'"
      by (cases "fst (fst ?r) = 0") (simp_all add: u Inr)
    then have "cmd \<in> (\<lambda>m. [''pactl'', ''unload-module'', fst m]) ` set ms'"
      using that by blast
    then obtain mid minfo where m: "cmd = [''pactl'', ''unload-module'', mid]" "(mid, minfo) \<in> set ms'"
      by auto
    then have "(mid, minfo) \<in> set ?ms" using sorted_modules_set[OF Inr] by simp
    then show ?thesis using m(1) scan_modules_mem[of mid minfo] by blast
  qed
  then show ?thesis
    using is_virtual_module_iff[of info] scan_modules_mem[of module_id info lines] by blast
qed

theorem denylist_match_witness:
  "is_virtual_module ''module-Loopback''
   \<and> sublist ''loopback'' (lower ''module-Loopback'')
   \<and> \<not> (\<exists>k\<in>set [''null-sink'', ''virtual'', ''mic'', lower (mic_name VirtualMicManager_init),
                ''remap'', ''loopback'']. sublist k (lower ''module-alsa-card''))
   \<and> (''9'', ''module-Loopback'') \<in> set (scan_modules (split_on CHR 0x0A demo_listing))
   \<and> unload_calls (new_events VirtualMicManager_init (snd (cleanup_all demo_env VirtualMicManager_init)))
     = [[''pactl'', ''unload-module'', ''30''], [''pactl'', ''unload-module'', ''12''],
        [''pactl'', ''unload-module'', ''9'']]"
proof -
  have a: "is_virtual_module ''module-Loopback''" by code_simp
  have b: "sublist ''loopback'' (lower ''module-Loopback'')" by code_simp
  have c: "\<not> is_virtual_module ''module-alsa-card''" by code_simp
  have d: "(''9'', ''module-Loopback'') \<in> set (scan_modules (split_on CHR 0x0A demo_listing))"
    by code_simp
  note e = demo_unload_calls
  show ?thesis
    using denylist_match [of "''module-alsa-card''" "''9''" "[]" VirtualMicManager_init demo_env]
      a b c d e by blast
qed

subsection \<open>cleanup_all: the order of the removals\<close>

lemma descending_weak:
  fixes k :: "'a \<Rightarrow> int"
  shows "sorted_wrt (\<lambda>x y. k x \<ge> k y) (rev (sort_key k (rev ms)))"
proof -
  have "sorted (map k (sort_key k (rev ms)))" by simp
  then have "sorted_wrt (\<lambda>x y. k x \<le> k y) (sort_key k (rev ms))"
    by (simp add: sorted_wrt_map)
  then show ?thesis by (simp add: sorted_wrt_rev)
qed

text \<open>
  C2, as the code has it. Take what the listing command returned. With a non-zero code
  \<open>cleanup_all\<close> unloads nothing. With code 0 and N matched lines, if \<open>int\<close> reads the ID of
  every matched line, \<open>cleanup_all\<close> issues exactly N unload-module calls, one for each
  matched line, in descending order of the numeric ID, strictly descending when no two
  matched lines carry the same number, and returns normally. This holds in every
  environment, so whatever the single unload calls return (a non-zero code, a timeout, an
  exception).
\<close>

theorem cleanup_unloads_descending:
  assumes "run_cmd E [''pactl'', ''list'', ''modules'', ''short''] 5
             (snd (stop_playback E (emit (Print ''Cleaning up virtual audio devices...'') s)))
           = ((rc, out, err), s3)"
  shows "(rc \<noteq> 0 \<longrightarrow>
            unload_calls (new_events s (snd (cleanup_all E s))) = []
            \<and> fst (cleanup_all E s) = Inr ())
       \<and> (rc = 0 \<and> (\<forall>m\<in>set (scan_modules (split_on CHR 0x0A out)). py_int (fst m) \<noteq> None) \<longrightarrow>
            (\<exists>ids. unload_calls (new_events s (snd (cleanup_all E s)))
                     = map (\<lambda>i. [''pactl'', ''unload-module'', i]) ids
               \<and> length ids = length (filter line_matches (split_on CHR 0x0A out))
               \<and> mset ids = mset (map fst (scan_modules (split_on CHR 0x0A out)))
               \<and> sorted_wrt (\<lambda>i j. the (py_int i) \<ge> the (py_int j)) ids
               \<and> (distinct (map (\<lambda>m. py_int (fst m)) (scan_modules (split_on CHR 0x0A out)))
                    \<longrightarrow> sorted_wrt (\<lambda>i j. the (py_int i) > the (py_int j)) ids)
               \<and> fst (cleanup_all E s) = Inr ()))"
proof -
  define ms where "ms = scan_modules (split_on CHR 0x0A out)"
  define k where "k = (\<lambda>x :: string \<times> string. the (py_int (fst x)))"
  define ms' where "ms' = rev (sort_key k (rev ms))"
  note u = cleanup_all_unload_calls[OF assms]
  have A: "unload_calls (new_events s (snd (cleanup_all E s))) = [] \<and> fst (cleanup_all E s) = Inr ()"
    if "rc \<noteq> 0"
    using that assms u by (simp add: cleanup_all_def Let_def)
  have B: "\<exists>ids. unload_calls (new_events s (snd (cleanup_all E s)))
                     = map (\<lambda>i. [''pactl'', ''unload-module'', i]) ids
               \<and> length ids = length (filter line_matches (split_on CHR 0x0A out))
               \<and> mset ids = mset (map fst ms)
               \<and> sorted_wrt (\<lambda>i j. the (py_int i) \<ge> the (py_int j)) ids
               \<and> (distinct (map (\<lambda>m. py_int (fst m)) ms)
                    \<longrightarrow> sorted_wrt (\<lambda>i j. the (py_int i) > the (py_int j)) ids)
               \<and> fst (cleanup_all E s) = Inr ()"
    if rc: "rc = 0" and num: "\<forall>m\<in>set ms. py_int (fst m) \<noteq> None"
  proof -
    have sm: "sorted_modules ms = Inr ms'"
      using num sorted_modules_numeric[of ms] by (simp add: ms'_def k_def)
    have 1: "unload_calls (new_events s (snd (cleanup_all E s)))
               = map (\<lambda>i. [''pactl'', ''unload-module'', i]) (map fst ms')"
      using u sm rc by (simp add: ms_def[symmetric] comp_def)
    have 2: "length (map fst ms') = length (filter line_matches (split_on CHR 0x0A out))"
      by (simp add: ms'_def ms_def scan_modules_length)
    have 3: "mset (map fst ms') = mset (map fst ms)"
      by (simp add: ms'_def)
    have "sorted_wrt (\<lambda>x y. k x \<ge> k y) ms'"
      unfolding ms'_def by (rule descending_weak)
    then have 4: "sorted_wrt (\<lambda>i j. the (py_int i) \<ge> the (py_int j)) (map fst ms')"
      by (simp add: sorted_wrt_map k_def)
    have 5: "sorted_wrt (\<lambda>i j. the (py_int i) > the (py_int j)) (map fst ms')"
      if d: "distinct (map (\<lambda>m. py_int (fst m)) ms)"
    proof -
      have "map (\<lambda>m. py_int (fst m)) ms = map Some (map k ms)"
        using num by (auto simp: k_def)
      then have "distinct (map Some (map k ms))" using d by (simp only:)
      then have "distinct (map k ms)" by (auto simp: distinct_map inj_on_def)
      then have "sorted_wrt (\<lambda>x y. k x > k y) ms'"
        unfolding ms'_def by (rule descending_after_sort)
      then show ?thesis by (simp add: sorted_wrt_map k_def)
    qed
    have 6: "fst (cleanup_all E s) = Inr ()"
      using assms sm rc by (simp add: cleanup_all_def Let_def ms_def[symmetric])
    show ?thesis using 1 2 3 4 5 6 by blast
  qed
  show ?thesis using A B unfolding ms_def by blast
qed

theorem cleanup_unloads_descending_witness:
  "unload_calls (new_events VirtualMicManager_init (snd (cleanup_all demo_env VirtualMicManager_init)))
     = [[''pactl'', ''unload-module'', ''30''], [''pactl'', ''unload-module'', ''12''],
        [''pactl'', ''unload-module'', ''9'']]
   \<and> length (filter line_matches (split_on CHR 0x0A (strip demo_listing))) = 3
   \<and> subprocess_run demo_env [] [''pactl'', ''unload-module'', ''30''] 5 = TimeoutExpired
   \<and> fst (cleanup_all demo_env VirtualMicManager_init) = Inr ()
   \<and> unload_calls (new_events VirtualMicManager_init
         (snd (cleanup_all (listing_env (Completed 1 demo_listing [])) VirtualMicManager_init))) = []
   \<and> fst (cleanup_all (listing_env (Completed 1 demo_listing [])) VirtualMicManager_init) = Inr ()"
proof -
  let ?c = "emit (Print ''Cleaning up virtual audio devices...'') VirtualMicManager_init"
  let ?l = "[''pactl'', ''list'', ''modules'', ''short'']"
  let ?r = "run_cmd demo_env ?l 5 (snd (stop_playback demo_env ?c))"
  let ?F = "listing_env (Completed 1 demo_listing [])"
  let ?r' = "run_cmd ?F ?l 5 (snd (stop_playback ?F ?c))"
  have "fst ?r = (0, strip demo_listing, [])"
    by (simp add: run_cmd_def demo_env_def demo_shell_def Let_def strip_def[of "[]"])
  then have h1: "?r = ((0, strip demo_listing, []), snd ?r)" by (metis prod.collapse)
  have h2: "\<forall>m\<in>set (scan_modules (split_on CHR 0x0A (strip demo_listing))). py_int (fst m) \<noteq> None"
    by code_simp
  have h3: "distinct (map (\<lambda>m. py_int (fst m)) (scan_modules (split_on CHR 0x0A (strip demo_listing))))"
    by code_simp
  have "fst ?r' = (1, strip demo_listing, [])"
    by (simp add: run_cmd_def listing_env_def Let_def strip_def[of "[]"])
  then have h1': "?r' = ((1, strip demo_listing, []), snd ?r')" by (metis prod.collapse)
  note a = demo_unload_calls
  have b: "length (filter line_matches (split_on CHR 0x0A (strip demo_listing))) = 3"
    by code_simp
  have c: "subprocess_run demo_env [] [''pactl'', ''unload-module'', ''30''] 5 = TimeoutExpired"
    by (simp add: demo_env_def demo_shell_def)
  have d: "fst (cleanup_all demo_env VirtualMicManager_init) = Inr ()"
    using cleanup_unloads_descending [OF h1] h2 h3 by blast
  have e: "unload_calls (new_events VirtualMicManager_init (snd (cleanup_all ?F VirtualMicManager_init))) = []
      \<and> fst (cleanup_all ?F VirtualMicManager_init) = Inr ()"
    using cleanup_unloads_descending [OF h1'] by simp
  show ?thesis using a b c d e by blast
qed

text \<open>
  C2, as the specification states it, fails. A listing with the IDs 12, 7 and 012 on its
  three matched lines is unloaded in the order 12, 012, 7: the first two are the same
  number, so the order is not strictly descending. A listing with three matched lines
  that comes with exit status 1 has nothing unloaded. And with a matched line whose ID is
  \<open>x1\<close>, \<open>int\<close> raises \<open>ValueError\<close> before the first removal: nothing is unloaded for the
  two matched lines.
\<close>

theorem cleanup_unloads_counterexample:
  "length (filter line_matches (split_on CHR 0x0A repeated_id_listing)) = 3
   \<and> unload_calls (new_events VirtualMicManager_init
         (snd (cleanup_all (listing_env (Completed 0 repeated_id_listing [])) VirtualMicManager_init)))
       = [[''pactl'', ''unload-module'', ''12''], [''pactl'', ''unload-module'', ''012''],
          [''pactl'', ''unload-module'', ''7'']]
   \<and> py_int ''12'' = Some 12 \<and> py_int ''012'' = Some 12
   \<and> length (filter line_matches (split_on CHR 0x0A (strip demo_listing))) = 3
   \<and> unload_calls (new_events VirtualMicManager_init
         (snd (cleanup_all (listing_env (Completed 1 demo_listing [])) VirtualMicManager_init)))
       = []
   \<and> length (filter line_matches (split_on CHR 0x0A bad_id_listing)) = 2
   \<and> unload_calls (new_events VirtualMicManager_init
         (snd (cleanup_all (listing_env (Completed 0 bad_id_listing [])) VirtualMicManager_init)))
       = []
   \<and> fst (cleanup_all (listing_env (Completed 0 bad_id_listing [])) VirtualMicManager_init)
       = Inl (ValueError ''x1'')"
  by code_simp

subsection \<open>setup: teardown before creation\<close>

lemma create_trace:
  "\<exists>r rest. trace (snd (create E s)) = trace s @ Subprocess (load_cmd (mic_name s)) 5 r # rest
     \<and> list_all (\<lambda>e. \<not> is_stop_event e \<and> \<not> is_unload e \<and> \<not> is_load e) rest"
proof -
  let ?r = "run_cmd E (load_cmd (mic_name s)) 5 s"
  define e where "e = Subprocess (load_cmd (mic_name s)) 5 (subprocess_run E (trace s) (load_cmd (mic_name s)) 5)"
  have s1: "snd ?r = emit e s" by (simp add: snd_run_cmd e_def)
  show ?thesis
  proof (cases "fst (fst ?r) \<noteq> 0 \<or> \<not> isdigit (fst (snd (fst ?r)))")
    case True
    then have "snd (create E s) = emit e s"
      using s1 by (auto simp: create_def case_prod_beta)
    then show ?thesis by (simp add: trace_emit e_def)
  next
    case False
    then have "snd (create E s) = snd (verify E (fst (snd (fst ?r))) (emit e s))"
      using s1 by (simp add: create_def case_prod_beta)
    then show ?thesis
      by (simp add: verify_result Let_def snd_run_cmd trace_emit e_def)
  qed
qed

lemma create_returns: "\<exists>res. fst (create E s) = Inr res"
  by (cases "fst (fst (run_cmd E (load_cmd (mic_name s)) 5 s)) \<noteq> 0
              \<or> \<not> isdigit (fst (snd (fst (run_cmd E (load_cmd (mic_name s)) 5 s))))")
     (auto simp: create_def verify_result Let_def case_prod_beta)

text \<open>
  C3. The effects of a call of \<open>setup\<close> come in this order: the two announcements; what
  \<open>stop_playback\<close> does (stop and release requests only); the module listing followed by
  the unloads, with no creation request among them; and last, only if the teardown
  returned, the settle wait and the creation request with what follows it, with no unload
  and no stop request among them. So a stop request precedes every unload, and every
  unload precedes the load.
\<close>

theorem setup_order:
  "\<exists>a r b c.
      trace (snd (setup_manager E s))
        = trace s @ [Print (''Creating virtual microphone: '' @ mic_name s),
                     Print ''Cleaning up virtual audio devices...'']
          @ a @ (Subprocess [''pactl'', ''list'', ''modules'', ''short''] 5 r # b) @ c
    \<and> trace (snd (stop_playback E
          (emit (Print ''Cleaning up virtual audio devices...'')
             (emit (Print (''Creating virtual microphone: '' @ mic_name s)) s))))
        = trace s @ [Print (''Creating virtual microphone: '' @ mic_name s),
                     Print ''Cleaning up virtual audio devices...''] @ a
    \<and> list_all is_stop_event a
    \<and> list_all (\<lambda>e. \<not> is_stop_event e \<and> \<not> is_load e) b
    \<and> list_all (\<lambda>e. \<not> is_stop_event e \<and> \<not> is_unload e) c
    \<and> (case fst (setup_manager E s) of
          Inl e \<Rightarrow> c = []
        | Inr res \<Rightarrow> (\<exists>r' rest. c = Sleep 2000 # Subprocess (load_cmd (mic_name s)) 5 r' # rest
                                \<and> list_all (\<lambda>e. \<not> is_load e) rest))"
proof -
  let ?p = "Print (''Creating virtual microphone: '' @ mic_name s)"
  let ?c = "Print ''Cleaning up virtual audio devices...''"
  let ?l = "[''pactl'', ''list'', ''modules'', ''short'']"
  define s1 where "s1 = emit ?p s"
  let ?run = "run_cmd E ?l 5 (snd (stop_playback E (emit ?c s1)))"
  have run: "?run = ((fst (fst ?run), fst (snd (fst ?run)), snd (snd (fst ?run))), snd ?run)"
    by simp
  obtain a r b where t: "trace (snd (cleanup_all E s1)) = trace s1 @ [?c] @ a @ (Subprocess ?l 5 r # b)"
      and st: "trace (snd (stop_playback E (emit ?c s1))) = trace s1 @ [?c] @ a"
      and a: "list_all is_stop_event a"
      and b: "list_all (\<lambda>e. \<not> is_stop_event e \<and> \<not> is_load e) b"
    using cleanup_all_trace[OF run] by blast
  have t1: "trace s1 = trace s @ [?p]" by (simp add: s1_def trace_emit)
  obtain res s2 where cl: "cleanup_all E s1 = (res, s2)" by fastforce
  have t2: "trace s2 = trace s @ [?p, ?c] @ a @ (Subprocess ?l 5 r # b)"
    using t cl by (simp add: t1)
  have st': "trace (snd (stop_playback E (emit ?c (emit ?p s)))) = trace s @ [?p, ?c] @ a"
    using st t1 unfolding s1_def by simp
  show ?thesis
  proof (cases res)
    case (Inl e)
    then have "setup_manager E s = (Inl e, s2)"
      using cl by (simp add: setup_manager_def Let_def s1_def)
    then have "trace (snd (setup_manager E s)) = trace s @ [?p, ?c] @ a @ (Subprocess ?l 5 r # b) @ []"
      and "fst (setup_manager E s) = Inl e"
      by (simp_all add: t2)
    then show ?thesis using st' a b by fastforce
  next
    case (Inr u)
    then have sm: "setup_manager E s = create E (emit (Sleep 2000) s2)"
      using cl by (simp add: setup_manager_def Let_def s1_def)
    have n: "mic_name s2 = mic_name s"
      using cleanup_all_fields(1)[of E s1] cl by (simp add: s1_def emit_fields)
    obtain r' rest where cr: "trace (snd (create E (emit (Sleep 2000) s2)))
          = trace (emit (Sleep 2000) s2) @ Subprocess (load_cmd (mic_name s)) 5 r' # rest"
        and rest: "list_all (\<lambda>e. \<not> is_stop_event e \<and> \<not> is_unload e \<and> \<not> is_load e) rest"
      using create_trace[of E "emit (Sleep 2000) s2"] by (auto simp: emit_fields n)
    define c where "c = Sleep 2000 # Subprocess (load_cmd (mic_name s)) 5 r' # rest"
    have 1: "trace (snd (setup_manager E s)) = trace s @ [?p, ?c] @ a @ (Subprocess ?l 5 r # b) @ c"
      by (simp add: sm cr trace_emit t2 c_def)
    have 2: "list_all (\<lambda>e. \<not> is_stop_event e \<and> \<not> is_unload e) c"
      using rest by (simp add: c_def load_cmd_def list_all_iff)
    have "\<exists>res. fst (setup_manager E s) = Inr res"
      unfolding sm by (rule create_returns)
    then have 3: "(case fst (setup_manager E s) of
          Inl e \<Rightarrow> c = []
        | Inr res \<Rightarrow> (\<exists>r' rest. c = Sleep 2000 # Subprocess (load_cmd (mic_name s)) 5 r' # rest
                                \<and> list_all (\<lambda>e. \<not> is_load e) rest))"
      using rest by (auto simp: c_def list_all_iff)
    show ?thesis using 1 st' a b 2 3 by blast
  qed
qed

theorem setup_order_witness:
  "map (\<lambda>e. if is_stop_event e then ''stop'' else if is_unload e then ''unload''
              else if is_load e then ''load'' else ''-'')
       (trace (snd (setup_manager demo_env one_player)))
     = [''-'', ''-'', ''stop'', ''stop'', ''-'', ''-'', ''unload'', ''-'', ''-'', ''unload'', ''-'',
        ''-'', ''unload'', ''-'', ''-'', ''-'', ''load'', ''-'', ''-'', ''-'', ''-'']
   \<and> (\<exists>a r b c.
        trace (snd (setup_manager demo_env one_player))
          = trace one_player @ [Print (''Creating virtual microphone: '' @ mic_name one_player),
                       Print ''Cleaning up virtual audio devices...'']
            @ a @ (Subprocess [''pactl'', ''list'', ''modules'', ''short''] 5 r # b) @ c
        \<and> list_all is_stop_event a
        \<and> list_all (\<lambda>e. \<not> is_stop_event e \<and> \<not> is_load e) b
        \<and> list_all (\<lambda>e. \<not> is_stop_event e \<and> \<not> is_unload e) c)"
proof -
  have "map (\<lambda>e. if is_stop_event e then ''stop'' else if is_unload e then ''unload''
              else if is_load e then ''load'' else ''-'')
       (trace (snd (setup_manager demo_env one_player)))
     = [''-'', ''-'', ''stop'', ''stop'', ''-'', ''-'', ''unload'', ''-'', ''-'', ''unload'', ''-'',
        ''-'', ''unload'', ''-'', ''-'', ''-'', ''load'', ''-'', ''-'', ''-'', ''-'']"
    by code_simp
  then show ?thesis
    using setup_order [of demo_env one_player] by blast
qed

subsection \<open>play_audio_vlc: one session at a time\<close>

lemma players_created_append:
  "players_created (a @ b) = players_created a @ players_created b"
  by (simp add: players_created_def List.map_filter_def)

lemma players_created_single:
  "players_created [e] = (case created_by e of None \<Rightarrow> [] | Some h \<Rightarrow> [h])"
  by (cases "created_by e") (simp_all add: players_created_def List.map_filter_def)

lemma retired_mono: "retired tr h \<Longrightarrow> retired (tr @ d) h"
  by (auto simp: retired_def)

lemma exclusive_from_snoc:
  "exclusive_from past (xs @ [e]) \<longleftrightarrow>
     exclusive_from past xs
     \<and> (created_by e \<noteq> None \<longrightarrow>
          list_all (retired (past @ xs)) (players_created (past @ xs)))"
  by (induction xs arbitrary: past) auto

lemma exclusive_snoc:
  "exclusive (tr @ [e]) \<longleftrightarrow>
     exclusive tr \<and> (created_by e \<noteq> None \<longrightarrow> list_all (retired tr) (players_created tr))"
  using exclusive_from_snoc[of "[]" tr e] by (simp add: exclusive_def)

text \<open>An event that neither creates a player nor asks one to stop keeps the invariant.\<close>

lemma session_inv_emit:
  assumes "session_inv s" "created_by e = None" "\<And>g. \<not> stops g e"
  shows "session_inv (emit e s)"
proof -
  have c: "players_created (trace s @ [e]) = players_created (trace s)"
    by (simp add: players_created_append players_created_single assms(2))
  have st: "\<And>g. list_ex (stops g) (trace s @ [e]) = list_ex (stops g) (trace s)"
    using assms(3) by simp
  show ?thesis
    using assms(1) unfolding session_inv_def trace_emit emit_fields c st exclusive_snoc
    by (auto simp: assms(2) intro: retired_mono)
qed

lemma session_inv_fields [simp]:
  "session_inv (s\<lparr>vlc_instance := i\<rparr>) = session_inv s"
  "session_inv (s\<lparr>current_process := q\<rparr>) = session_inv s"
  by (simp_all add: session_inv_def)

lemma session_inv_init: "session_inv VirtualMicManager_init"
  by (simp add: session_inv_def VirtualMicManager_init_def exclusive_def players_created_def
      List.map_filter_def)

lemma stops_is_stop_event: "stops g e \<Longrightarrow> is_stop_event e"
  by (cases "(g, e)" rule: stops.cases) simp_all

text \<open>Calls that create no player and stop nothing keep any property that such events keep.\<close>

lemma vlc_try_keeps:
  assumes "G (snd r)" and "\<And>v. fst r = Ret v \<Longrightarrow> G (snd r) \<Longrightarrow> G (snd (k v (snd r)))"
  shows "G (snd (vlc_try r k))"
  using assms by (cases r; cases "fst r") (auto simp: vlc_try_def)

lemma route_and_play_keeps:
  assumes step: "\<And>c s. (\<And>r. created_by (Backend c r) = None \<and> \<not> is_stop_event (Backend c r))
                    \<Longrightarrow> G s \<Longrightarrow> G (snd (backend_call E c s))"
    and "G s"
  shows "G (snd (route_and_play E audio_path i p s))"
  unfolding route_and_play_def
  apply (rule vlc_try_keeps[where G=G])
   apply (rule step; simp add: assms(2))
  apply (rule vlc_try_keeps[where G=G])
   apply (rule step; simp)
  apply (rule vlc_try_keeps[where G=G])
   apply (rule step; simp)
  apply (rule vlc_try_keeps[where G=G])
   apply (rule step; simp)
  apply (rule vlc_try_keeps[where G=G])
   apply (rule step; simp)
  apply simp
  done

lemma get_instance_keeps:
  assumes step: "\<And>c s. (\<And>r. created_by (Backend c r) = None \<and> \<not> is_stop_event (Backend c r))
                    \<Longrightarrow> G s \<Longrightarrow> G (snd (backend_call E c s))"
    and upd: "\<And>s i. G s \<Longrightarrow> G (s\<lparr>vlc_instance := i\<rparr>)"
    and "G s"
  shows "G (snd (get_instance E s))"
proof (cases "vlc_instance s")
  case (Some i)
  then show ?thesis by (simp add: get_instance_def assms(3))
next
  case None
  let ?c = "InstanceNew [''--no-video'', ''--quiet'']"
  have g: "G (snd (backend_call E ?c s))" by (rule step) (simp_all add: assms(3))
  show ?thesis
    by (cases "backend_call E ?c s"; cases "fst (backend_call E ?c s)")
       (use g upd in \<open>auto simp: get_instance_def None\<close>)
qed

lemma backend_call_step_inv:
  assumes "\<And>r. created_by (Backend c r) = None \<and> \<not> is_stop_event (Backend c r)"
    and "session_inv s"
  shows "session_inv (snd (backend_call E c s))"
  unfolding backend_call_snd
  using assms stops_is_stop_event by (intro session_inv_emit) auto

lemma exclusive_append_plain:
  "exclusive tr \<Longrightarrow> list_all (\<lambda>e. created_by e = None) d \<Longrightarrow> exclusive (tr @ d)"
proof (induction d rule: rev_induct)
  case Nil
  then show ?case by simp
next
  case (snoc e d)
  then show ?case
    using exclusive_snoc[of "tr @ d" e] by simp
qed

lemma players_created_plain:
  "list_all (\<lambda>e. created_by e = None) d \<Longrightarrow> players_created (tr @ d) = players_created tr"
  by (induction d) (simp_all add: players_created_def List.map_filter_def)

text \<open>Stopping the player that is held retires it; the other players stay retired.\<close>

lemma session_inv_after_stop:
  assumes inv: "session_inv s" and p: "vlc_player s = Some p"
    and tr: "trace s' = trace s @ d" and idle: "vlc_player s' = None"
    and d: "d = [Backend (PlayerStop p) (Exc m)]
            \<or> d = [Backend (PlayerStop p) (Ret v), Backend (PlayerRelease p) r2]"
  shows "session_inv s'"
proof -
  have plain: "list_all (\<lambda>e. created_by e = None) d" using d by auto
  have cr: "players_created (trace s') = players_created (trace s)"
    unfolding tr by (rule players_created_plain[OF plain])
  have pc: "p \<in> set (players_created (trace s))"
    using inv p by (auto simp: session_inv_def)
  have 1: "exclusive (trace s')"
    unfolding tr using inv plain by (intro exclusive_append_plain) (simp_all add: session_inv_def)
  have 2: "distinct (players_created (trace s'))"
    using inv by (simp add: cr session_inv_def)
  have rp: "retired (trace s') p"
    using d by (auto simp: tr retired_def)
  have 3: "\<forall>h\<in>set (players_created (trace s')). vlc_player s' = Some h \<or> retired (trace s') h"
  proof
    fix h assume "h \<in> set (players_created (trace s'))"
    then have "h = p \<or> retired (trace s) h"
      using inv p by (auto simp: cr session_inv_def)
    then show "vlc_player s' = Some h \<or> retired (trace s') h"
      using rp retired_mono[of "trace s" h d] by (auto simp: tr)
  qed
  have 5: "\<forall>h\<in>set (players_created (trace s')). h < int (length (trace s'))"
    unfolding cr using inv by (auto simp: tr session_inv_def)
  have 6: "\<forall>g. list_ex (stops g) (trace s') \<longrightarrow> g \<in> set (players_created (trace s'))"
    unfolding cr using inv pc d by (auto simp: tr session_inv_def)
  show ?thesis
    unfolding session_inv_def using 1 2 3 5 6 idle by simp
qed

lemma stop_player_inv:
  assumes "session_inv s" "vlc_player s = Some p"
  shows "session_inv ((stop_player E p s)\<lparr>vlc_player := None\<rparr>)"
proof -
  define r where "r = fst (backend_call E (PlayerStop p) s)"
  define e where "e = Backend (PlayerStop p) r"
  have 1: "backend_call E (PlayerStop p) s = (r, emit e s)"
    using backend_call_snd[of E "PlayerStop p" s] by (simp add: r_def e_def prod_eq_iff)
  show ?thesis
  proof (cases r)
    case (Exc m)
    have "trace ((stop_player E p s)\<lparr>vlc_player := None\<rparr>) = trace s @ [Backend (PlayerStop p) (Exc m)]"
      by (simp add: stop_player_def 1 Exc trace_emit e_def)
    then show ?thesis
      using session_inv_after_stop[OF assms, of "(stop_player E p s)\<lparr>vlc_player := None\<rparr>"]
      by simp
  next
    case (Ret v)
    have "trace ((stop_player E p s)\<lparr>vlc_player := None\<rparr>)
        = trace s @ [Backend (PlayerStop p) (Ret v),
            Backend (PlayerRelease p) (fst (backend_call E (PlayerRelease p) (emit e s)))]"
      by (simp add: stop_player_def 1 Ret backend_call_snd trace_emit e_def)
    then show ?thesis
      using session_inv_after_stop[OF assms, of "(stop_player E p s)\<lparr>vlc_player := None\<rparr>"]
      by simp
  qed
qed

lemma stop_process_keeps:
  assumes step: "\<And>c s. (\<And>r. created_by (Backend c r) = None \<and> (\<forall>g. \<not> stops g (Backend c r)))
                    \<Longrightarrow> G s \<Longrightarrow> G (snd (backend_call E c s))"
    and "G s"
  shows "G (stop_process E q s)"
proof -
  have a: "G (snd (backend_call E (ProcTerminate q) s))" by (rule step) (simp_all add: assms(2))
  have b: "G (snd (backend_call E (ProcKill q) (snd (backend_call E (ProcTerminate q) s))))"
    by (rule step) (simp_all add: a)
  have c: "G (snd (backend_call E (ProcWait q 1) (snd (backend_call E (ProcTerminate q) s))))"
    by (rule step) (simp_all add: a)
  have d: "G (snd (backend_call E (ProcKill q)
       (snd (backend_call E (ProcWait q 1) (snd (backend_call E (ProcTerminate q) s))))))"
    by (rule step) (simp_all add: c)
  show ?thesis
    unfolding stop_process_def
    by (cases "backend_call E (ProcTerminate q) s"; cases "fst (backend_call E (ProcTerminate q) s)";
        cases "backend_call E (ProcWait q 1) (snd (backend_call E (ProcTerminate q) s))";
        cases "fst (backend_call E (ProcWait q 1) (snd (backend_call E (ProcTerminate q) s)))")
       (use a b c d in auto)
qed

lemma backend_call_nostop_inv:
  assumes "\<And>r. created_by (Backend c r) = None \<and> (\<forall>g. \<not> stops g (Backend c r))"
    and "session_inv s"
  shows "session_inv (snd (backend_call E c s))"
  unfolding backend_call_snd
  using assms by (intro session_inv_emit) auto

lemma stop_playback_inv:
  assumes "session_inv s"
  shows "session_inv (snd (stop_playback E s))"
proof -
  define s1 where "s1 = (case vlc_player s of None \<Rightarrow> s
                          | Some p \<Rightarrow> (stop_player E p s)\<lparr>vlc_player := None\<rparr>)"
  have 1: "session_inv s1"
    using assms stop_player_inv[of s _ E] by (cases "vlc_player s") (simp_all add: s1_def)
  define s2 where "s2 = (case current_process s1 of None \<Rightarrow> s1
                          | Some q \<Rightarrow> (stop_process E q s1)\<lparr>current_process := None\<rparr>)"
  have "session_inv (stop_process E q s1)" for q
  proof (rule stop_process_keeps[where G=session_inv])
    show "session_inv s1" by (rule 1)
  next
    fix c s
    assume "\<And>r. created_by (Backend c r) = None \<and> (\<forall>g. \<not> stops g (Backend c r))"
      and "session_inv s"
    then show "session_inv (snd (backend_call E c s))"
      by (rule backend_call_nostop_inv)
  qed
  then have 2: "session_inv s2"
    using 1 by (cases "current_process s1") (simp_all add: s2_def)
  have "snd (stop_playback E s) = s2"
    unfolding stop_playback_def s1_def s2_def Let_def by simp
  then show ?thesis using 2 by simp
qed

lemma session_inv_create:
  assumes inv: "session_inv s" and idle: "vlc_player s = None"
    and p: "p = int (length (trace s))"
    and s': "s' = (emit (Backend (MediaPlayerNew i) (Ret p)) s)\<lparr>vlc_player := Some p\<rparr>"
  shows "session_inv s'"
proof -
  let ?e = "Backend (MediaPlayerNew i) (Ret p)"
  have tr: "trace s' = trace s @ [?e]" and vp: "vlc_player s' = Some p"
    by (simp_all add: s' trace_emit)
  have cr: "players_created (trace s') = players_created (trace s) @ [p]"
    by (simp add: tr players_created_append players_created_single)
  have old: "\<forall>h\<in>set (players_created (trace s)). retired (trace s) h \<and> h < p"
    using inv idle by (auto simp: session_inv_def p)
  have 1: "exclusive (trace s')"
    unfolding tr exclusive_snoc using inv old by (simp add: session_inv_def list_all_iff)
  have 2: "distinct (players_created (trace s'))"
    unfolding cr using inv old by (auto simp: session_inv_def)
  have 3: "\<forall>h\<in>set (players_created (trace s')). vlc_player s' = Some h \<or> retired (trace s') h"
    unfolding cr vp unfolding tr using old retired_mono[of "trace s" _ "[?e]"] by auto
  have "\<not> list_ex (stops p) (trace s)"
    using inv old by (auto simp: session_inv_def)
  then have 4: "\<forall>h. vlc_player s' = Some h \<longrightarrow>
            players_created (trace s') \<noteq> [] \<and> h = last (players_created (trace s'))
            \<and> \<not> list_ex (stops h) (trace s')"
    unfolding cr vp unfolding tr by simp
  have 5: "\<forall>h\<in>set (players_created (trace s')). h < int (length (trace s'))"
    unfolding cr unfolding tr using old by (auto simp: p)
  have 6: "\<forall>g. list_ex (stops g) (trace s') \<longrightarrow> g \<in> set (players_created (trace s'))"
    unfolding cr unfolding tr using inv by (auto simp: session_inv_def)
  show ?thesis
    unfolding session_inv_def using 1 2 3 4 5 6 by blast
qed

lemma media_player_new_handle:
  "fst (backend_call E (MediaPlayerNew i) s) = Ret p \<Longrightarrow> p = int (length (trace s))"
  by (auto simp: backend_call_def Let_def is_constructor_def split: ret.splits)

lemma vlc_try_Pair:
  "vlc_try (r, s) k = (case r of Exc m \<Rightarrow> (Inr (False, ''VLC error: '' @ m), s) | Ret v \<Rightarrow> k v s)"
  by (simp add: vlc_try_def)

text \<open>What the \<open>try\<close> block does when no player is held.\<close>

lemma start_player_inv:
  assumes inv: "session_inv s" and idle: "vlc_player s = None"
    and s': "s' = snd (start_player E audio_path s)"
  shows "session_inv s'
     \<and> (\<exists>b. trace s' = trace s @ b \<and> list_all (\<lambda>e. \<not> is_stop_event e) b)
     \<and> ((vlc_player s' = None \<and> players_created (trace s') = players_created (trace s)
          \<and> (\<exists>m. fst (start_player E audio_path s) = Inr (False, m)))
        \<or> (\<exists>h. vlc_player s' = Some h
              \<and> players_created (trace s') = players_created (trace s) @ [h]))"
proof -
  note s'_def = s'
  define G1 where "G1 = (\<lambda>x. session_inv x \<and> vlc_player x = None
      \<and> players_created (trace x) = players_created (trace s)
      \<and> (\<exists>b. trace x = trace s @ b \<and> list_all (\<lambda>e. \<not> is_stop_event e) b))"
  have step1: "G1 (snd (backend_call E c x))"
    if "\<And>r. created_by (Backend c r) = None \<and> \<not> is_stop_event (Backend c r)" "G1 x" for c x
  proof -
    from that(2) obtain b where b: "trace x = trace s @ b" "list_all (\<lambda>e. \<not> is_stop_event e) b"
      unfolding G1_def by blast
    have "trace (snd (backend_call E c x)) = trace s @ (b @ [Backend c (fst (backend_call E c x))])"
      by (simp add: backend_call_snd trace_emit b)
    moreover have "list_all (\<lambda>e. \<not> is_stop_event e) (b @ [Backend c (fst (backend_call E c x))])"
      using b(2) that(1) by simp
    ultimately have "\<exists>b. trace (snd (backend_call E c x)) = trace s @ b
        \<and> list_all (\<lambda>e. \<not> is_stop_event e) b" by blast
    moreover have "session_inv (snd (backend_call E c x))"
      using that unfolding G1_def by (intro backend_call_step_inv) auto
    moreover have "players_created (trace (snd (backend_call E c x))) = players_created (trace s)"
      using that unfolding G1_def
      by (simp add: backend_call_snd trace_emit players_created_append players_created_single)
    ultimately show ?thesis
      using that(2) unfolding G1_def by (simp add: backend_call_fields)
  qed
  have "G1 s" unfolding G1_def using inv idle by simp
  then have g1: "G1 (snd (get_instance E s))"
    by (intro get_instance_keeps[where G=G1] step1) (auto simp: G1_def)
  obtain r1 s1 where gi: "get_instance E s = (r1, s1)" by fastforce
  have G1s1: "G1 s1" using g1 gi by simp
  show ?thesis
  proof (cases r1)
    case (Exc m)
    then have "start_player E audio_path s = (Inr (False, ''VLC error: '' @ m), s1)"
      by (simp add: start_player_def gi vlc_try_Pair)
    then show ?thesis using G1s1 unfolding G1_def s'_def by auto
  next
    case (Ret i)
    define r2 where "r2 = fst (backend_call E (MediaPlayerNew i) s1)"
    define s2 where "s2 = emit (Backend (MediaPlayerNew i) r2) s1"
    have bc: "backend_call E (MediaPlayerNew i) s1 = (r2, s2)"
      using backend_call_snd[of E "MediaPlayerNew i" s1] by (simp add: r2_def s2_def prod_eq_iff)
    obtain b1 where b1: "trace s1 = trace s @ b1" "list_all (\<lambda>e. \<not> is_stop_event e) b1"
      using G1s1 unfolding G1_def by blast
    show ?thesis
    proof (cases r2)
      case (Exc m)
      have "G1 (snd (backend_call E (MediaPlayerNew i) s1))"
        unfolding backend_call_snd using G1s1 unfolding G1_def
        by (auto simp: r2_def[symmetric] Exc trace_emit emit_fields players_created_append
              players_created_single intro!: session_inv_emit)
      moreover have "start_player E audio_path s = (Inr (False, ''VLC error: '' @ m), s2)"
        by (simp add: start_player_def gi vlc_try_Pair Ret bc Exc)
      ultimately show ?thesis unfolding G1_def s'_def bc by auto
    next
      case (Ret p)
      define s3 where "s3 = s2\<lparr>vlc_player := Some p\<rparr>"
      have p: "p = int (length (trace s1))"
        using media_player_new_handle[of E i s1 p] by (simp add: r2_def[symmetric] Ret)
      have i3: "session_inv s3"
        using G1s1 unfolding G1_def
        by (intro session_inv_create[of s1 p s3 i] p) (simp_all add: s3_def s2_def Ret)
      define G3 where "G3 = (\<lambda>x. session_inv x \<and> vlc_player x = Some p
          \<and> players_created (trace x) = players_created (trace s) @ [p]
          \<and> (\<exists>b. trace x = trace s @ b \<and> list_all (\<lambda>e. \<not> is_stop_event e) b))"
      have step3: "G3 (snd (backend_call E c x))"
        if "\<And>r. created_by (Backend c r) = None \<and> \<not> is_stop_event (Backend c r)" "G3 x" for c x
      proof -
        from that(2) obtain b where b: "trace x = trace s @ b" "list_all (\<lambda>e. \<not> is_stop_event e) b"
          unfolding G3_def by blast
        have "trace (snd (backend_call E c x)) = trace s @ (b @ [Backend c (fst (backend_call E c x))])"
          by (simp add: backend_call_snd trace_emit b)
        moreover have "list_all (\<lambda>e. \<not> is_stop_event e) (b @ [Backend c (fst (backend_call E c x))])"
          using b(2) that(1) by simp
        ultimately have "\<exists>b. trace (snd (backend_call E c x)) = trace s @ b
            \<and> list_all (\<lambda>e. \<not> is_stop_event e) b" by blast
        moreover have "session_inv (snd (backend_call E c x))"
          using that unfolding G3_def by (intro backend_call_step_inv) auto
        moreover have "players_created (trace (snd (backend_call E c x)))
            = players_created (trace s) @ [p]"
          using that unfolding G3_def
          by (simp add: backend_call_snd trace_emit players_created_append players_created_single)
        ultimately show ?thesis
          using that(2) unfolding G3_def by (simp add: backend_call_fields)
      qed
      have "trace s3 = trace s @ (b1 @ [Backend (MediaPlayerNew i) (Ret p)])"
        by (simp add: s3_def s2_def Ret trace_emit b1)
      moreover have "players_created (trace s3) = players_created (trace s) @ [p]"
        using G1s1 unfolding G1_def
        by (simp add: s3_def s2_def Ret trace_emit players_created_append players_created_single)
      ultimately have "G3 s3"
        unfolding G3_def using i3 b1(2) by (auto simp: s3_def)
      then have g3: "G3 (snd (route_and_play E audio_path i p s3))"
        by (intro route_and_play_keeps[where G=G3] step3)
      have "start_player E audio_path s = route_and_play E audio_path i p s3"
        by (simp add: start_player_def gi vlc_try_Pair \<open>r1 = Ret i\<close> bc Ret s3_def)
      then show ?thesis using g3 unfolding G3_def s'_def by auto
    qed
  qed
qed

lemma play_audio_vlc_inv:
  assumes "session_inv s"
  shows "session_inv (snd (play_audio_vlc E audio_path s))"
proof (cases "path_exists E (trace s) audio_path")
  case False
  then show ?thesis using assms by (simp add: play_audio_vlc_def)
next
  case True
  have "session_inv (snd (stop_playback E s))" using assms by (rule stop_playback_inv)
  then have "session_inv (snd (start_player E audio_path (snd (stop_playback E s))))"
    using start_player_inv[OF _ stop_playback_fields(2) refl, of E s E audio_path] by blast
  then show ?thesis using True by (simp add: play_audio_vlc_def)
qed

lemma play_all_inv: "session_inv s \<Longrightarrow> session_inv (play_all E paths s)"
  by (induction paths arbitrary: s) (simp_all add: play_audio_vlc_inv)

lemma play_audio_vlc_steps:
  assumes inv: "session_inv s" and ex: "path_exists E (trace s) audio_path"
    and s': "s' = snd (play_audio_vlc E audio_path s)"
  shows "(\<exists>a b. trace s' = trace s @ a @ b
            \<and> trace (snd (stop_playback E s)) = trace s @ a
            \<and> list_all is_stop_event a \<and> list_all (\<lambda>e. \<not> is_stop_event e) b
            \<and> length (players_created b) \<le> 1)
       \<and> (fst (play_audio_vlc E audio_path s) = Inr (True, msg) \<longrightarrow>
            (\<exists>h. vlc_player s' = Some h
                \<and> players_created (trace s') = players_created (trace s) @ [h]))"
proof -
  define s0 where "s0 = snd (stop_playback E s)"
  have p: "play_audio_vlc E audio_path s = start_player E audio_path s0"
    using ex by (simp add: play_audio_vlc_def s0_def)
  have s'0: "s' = snd (start_player E audio_path s0)" by (simp add: s' p)
  obtain a where a: "trace s0 = trace s @ a" "list_all is_stop_event a"
    using stop_playback_trace[of E s] unfolding s0_def by blast
  have "list_all (\<lambda>e. created_by e = None) a"
    using a(2) stop_event_kinds by (auto simp: list_all_iff)
  then have c0: "players_created (trace s0) = players_created (trace s)"
    unfolding a(1) by (rule players_created_plain)
  have i0: "session_inv s0" "vlc_player s0 = None"
    using inv stop_playback_inv stop_playback_fields(2) by (simp_all add: s0_def)
  note sp = start_player_inv[OF i0 s'0]
  obtain b where b: "trace s' = trace s0 @ b" "list_all (\<lambda>e. \<not> is_stop_event e) b"
    using sp by blast
  have cb: "players_created (trace s') = players_created (trace s) @ players_created b"
    by (simp add: b(1) players_created_append c0)
  have alt: "(vlc_player s' = None \<and> players_created (trace s') = players_created (trace s)
          \<and> (\<exists>m. fst (start_player E audio_path s0) = Inr (False, m)))
        \<or> (\<exists>h. vlc_player s' = Some h
              \<and> players_created (trace s') = players_created (trace s) @ [h])"
    using sp c0 by simp
  then have "length (players_created b) \<le> 1"
    using cb by auto
  then have 1: "\<exists>a b. trace s' = trace s @ a @ b
            \<and> trace (snd (stop_playback E s)) = trace s @ a
            \<and> list_all is_stop_event a \<and> list_all (\<lambda>e. \<not> is_stop_event e) b
            \<and> length (players_created b) \<le> 1"
    using a b by (auto simp: s0_def)
  have 2: "fst (play_audio_vlc E audio_path s) = Inr (True, msg) \<longrightarrow>
            (\<exists>h. vlc_player s' = Some h
                \<and> players_created (trace s') = players_created (trace s) @ [h])"
    using alt unfolding p by auto
  show ?thesis using 1 2 by blast
qed

text \<open>
  C1, as the code has it. After any sequence of \<open>play_audio_vlc\<close> calls on a new manager:
  whenever a player was created, every player created before it had been retired (asked to
  stop, and released unless the stop request raised); the players created are pairwise
  different; every player created is retired or is the one in the handle; and the handle,
  if it holds a player, holds the one created last, which was never asked to stop. One
  more call with an existing path first does what \<open>stop_playback\<close> does (stop and release
  requests only), then creates at most one player, with no stop request after that; and
  when this call succeeds, the handle holds the player that the call created.
\<close>

theorem play_sessions_exclusive:
  assumes "s = play_all E paths VirtualMicManager_init"
    and "s' = snd (play_audio_vlc E audio_path s)"
  shows "exclusive (trace s)
       \<and> distinct (players_created (trace s))
       \<and> (\<forall>h\<in>set (players_created (trace s)). vlc_player s = Some h \<or> retired (trace s) h)
       \<and> (\<forall>h. vlc_player s = Some h \<longrightarrow>
              players_created (trace s) \<noteq> [] \<and> h = last (players_created (trace s))
              \<and> \<not> list_ex (stops h) (trace s))
       \<and> (path_exists E (trace s) audio_path \<longrightarrow>
            (\<exists>a b. trace s' = trace s @ a @ b
                \<and> trace (snd (stop_playback E s)) = trace s @ a
                \<and> list_all is_stop_event a \<and> list_all (\<lambda>e. \<not> is_stop_event e) b
                \<and> length (players_created b) \<le> 1))
       \<and> (fst (play_audio_vlc E audio_path s) = Inr (True, msg) \<longrightarrow>
            (\<exists>h. vlc_player s' = Some h
                \<and> players_created (trace s') = players_created (trace s) @ [h]))"
proof -
  have inv: "session_inv s"
    unfolding assms(1) using session_inv_init by (rule play_all_inv)
  have succ: "path_exists E (trace s) audio_path"
    if "fst (play_audio_vlc E audio_path s) = Inr (True, msg)"
    using that by (cases "path_exists E (trace s) audio_path") (simp_all add: play_audio_vlc_def)
  show ?thesis
    using inv play_audio_vlc_steps[OF inv _ assms(2), of msg] succ
    unfolding session_inv_def by blast
qed

theorem play_sessions_exclusive_witness:
  "path_exists unknown_length_env (trace (play_all unknown_length_env [''/m/a.wav''] VirtualMicManager_init))
     ''/m/b.wav''
   \<and> fst (play_audio_vlc unknown_length_env ''/m/b.wav''
          (play_all unknown_length_env [''/m/a.wav''] VirtualMicManager_init))
      = Inr (True, ''Sending audio '' @ [CHR 0x27] @ ''b.wav'' @ [CHR 0x27])
   \<and> players_created (trace (play_all unknown_length_env [''/m/a.wav''] VirtualMicManager_init)) = [1]
   \<and> vlc_player (play_all unknown_length_env [''/m/a.wav''] VirtualMicManager_init) = Some 1
   \<and> new_events (play_all unknown_length_env [''/m/a.wav''] VirtualMicManager_init)
        (play_all unknown_length_env [''/m/a.wav'', ''/m/b.wav''] VirtualMicManager_init)
      = [Backend (PlayerStop 1) (Ret 0), Backend (PlayerRelease 1) (Ret 0),
         Backend (MediaPlayerNew 0) (Ret 9), Backend (AudioOutputSet 9 ''pulse'') (Ret 0),
         Backend (AudioOutputDeviceSet 9 ''Real4n54n'') (Ret 0),
         Backend (MediaNew 0 ''/m/b.wav'') (Ret 12), Backend (SetMedia 9 12) (Ret 0),
         Backend (PlayerPlay 9) (Ret 0)]
   \<and> players_created (trace (play_all unknown_length_env [''/m/a.wav'', ''/m/b.wav''] VirtualMicManager_init))
      = [1, 9]
   \<and> vlc_player (play_all unknown_length_env [''/m/a.wav'', ''/m/b.wav''] VirtualMicManager_init) = Some 9
   \<and> exclusive (trace (play_all unknown_length_env [''/m/a.wav'', ''/m/b.wav''] VirtualMicManager_init))
   \<and> (\<exists>h. vlc_player (play_all unknown_length_env [''/m/a.wav'', ''/m/b.wav''] VirtualMicManager_init)
            = Some h
          \<and> players_created (trace (play_all unknown_length_env [''/m/a.wav'', ''/m/b.wav''] VirtualMicManager_init))
            = players_created (trace (play_all unknown_length_env [''/m/a.wav''] VirtualMicManager_init)) @ [h])
   \<and> retired (trace (play_all unknown_length_env [''/m/a.wav'', ''/m/b.wav''] VirtualMicManager_init)) 1"
proof -
  let ?s = "play_all unknown_length_env [''/m/a.wav''] VirtualMicManager_init"
  let ?s' = "play_all unknown_length_env [''/m/a.wav'', ''/m/b.wav''] VirtualMicManager_init"
  have s': "?s' = snd (play_audio_vlc unknown_length_env ''/m/b.wav'' ?s)" by simp
  have a: "path_exists unknown_length_env (trace ?s) ''/m/b.wav''"
    by (simp add: unknown_length_env_def)
  have b: "fst (play_audio_vlc unknown_length_env ''/m/b.wav'' ?s)
      = Inr (True, ''Sending audio '' @ [CHR 0x27] @ ''b.wav'' @ [CHR 0x27])"
    by code_simp
  have c: "players_created (trace ?s) = [1]" "vlc_player ?s = Some 1"
    by code_simp+
  have d: "new_events ?s ?s'
      = [Backend (PlayerStop 1) (Ret 0), Backend (PlayerRelease 1) (Ret 0),
         Backend (MediaPlayerNew 0) (Ret 9), Backend (AudioOutputSet 9 ''pulse'') (Ret 0),
         Backend (AudioOutputDeviceSet 9 ''Real4n54n'') (Ret 0),
         Backend (MediaNew 0 ''/m/b.wav'') (Ret 12), Backend (SetMedia 9 12) (Ret 0),
         Backend (PlayerPlay 9) (Ret 0)]"
    by code_simp
  have e: "players_created (trace ?s') = [1, 9]" "vlc_player ?s' = Some 9"
    by code_simp+
  have f: "exclusive (trace ?s')"
    using play_sessions_exclusive [OF refl refl,
        of unknown_length_env "[''/m/a.wav'', ''/m/b.wav'']" "''/m/b.wav''"] by blast
  have g: "retired (trace ?s') 1"
    using play_sessions_exclusive [OF refl refl,
        of unknown_length_env "[''/m/a.wav'', ''/m/b.wav'']" "''/m/b.wav''"] e by auto
  have h: "\<exists>h. vlc_player ?s' = Some h
      \<and> players_created (trace ?s') = players_created (trace ?s) @ [h]"
    using play_sessions_exclusive [OF refl s',
        of "''Sending audio '' @ [CHR 0x27] @ ''b.wav'' @ [CHR 0x27]"] a b
    by blast
  show ?thesis using a b c d e f g h by blast
qed

text \<open>
  C1, as the specification states it, fails: in \<open>demo_env\<close> the play of the first file
  succeeds with player 1 and the play of the second file creates player 9, whose start the
  backend refuses. The handle then holds player 9, the player of a failed Play, while the
  most recent successful Play was the one of player 1. And where the backend raises on
  every call (\<open>blank_env\<close>), a Play of an existing file leaves no player at all.
\<close>

theorem play_sessions_counterexample:
  "most_recent_successful_player demo_env [''/m/a.wav'', ''/m/b.wav''] VirtualMicManager_init None
     = Some 1
   \<and> vlc_player (play_all demo_env [''/m/a.wav'', ''/m/b.wav''] VirtualMicManager_init) = Some 9
   \<and> fst (play_audio_vlc demo_env ''/m/b.wav''
            (play_all demo_env [''/m/a.wav''] VirtualMicManager_init))
     = Inr (False, ''Failed to play audio with VLC'')
   \<and> path_exists blank_env [] ''/m/a.wav''
   \<and> vlc_player (play_all blank_env [''/m/a.wav''] VirtualMicManager_init) = None"
  by code_simp

end
